theory Spec2Isabelle
  imports Main "HOL-Library.AList" "HOL-Library.Char_ord" "HOL-Library.List_Lexorder"
    "HOL-Library.Multiset"
begin

section \<open>Python strings and dictionaries\<close>

text \<open>
  The program is \<^verbatim>\<open>icecake.py\<close>, read as Python 3 on a POSIX system. A Python string
  is modelled as the \<open>string\<close> of its code points, which the type \<open>char\<close> limits to those
  below 256; the content of a file on disk is the \<open>string\<close> of its bytes. \<^verbatim>\<open>None\<close> is
  modelled by \<open>option\<close>, exceptions as the left summand of \<open>error + 'a\<close>; a function that
  raises returns no state. A \<^verbatim>\<open>dict\<close> is an association list in insertion order:
  assignment to a present key keeps its position, a new key goes to the end, which is
  \<open>AList.update\<close>. Log lines are not part of the model.
\<close>

datatype error =
    RuntimeError | KeyError | ValueError | TypeError | IndexError | AttributeError
  | FileNotFoundError | NotADirectoryError | UnicodeDecodeError | UnicodeEncodeError
  | TemplateNotFound | ParsingError

type_synonym 'v dict = "(string \<times> 'v) list"

definition dict_get :: "'v dict \<Rightarrow> string \<Rightarrow> 'v option" where
  "dict_get d k = map_of d k"

definition dict_contains :: "'v dict \<Rightarrow> string \<Rightarrow> bool" where
  "dict_contains d k = (k \<in> set (map fst d))"

definition dict_set :: "'v dict \<Rightarrow> string \<Rightarrow> 'v \<Rightarrow> 'v dict" where
  "dict_set d k v = AList.update k v d"

text \<open>\<^verbatim>\<open>del d[k]\<close> raises \<^verbatim>\<open>KeyError\<close> on an absent key.\<close>

definition dict_del :: "'v dict \<Rightarrow> string \<Rightarrow> error + 'v dict" where
  "dict_del d k = (if dict_contains d k then Inr (AList.delete k d) else Inl KeyError)"

text \<open>\<^verbatim>\<open>s.startswith(p)\<close>\<close>

definition startswith :: "string \<Rightarrow> string \<Rightarrow> bool" where
  "startswith s p = (take (length p) s = p)"

text \<open>\<^verbatim>\<open>s.split(c)\<close> for a separator of one character: never the empty list.\<close>

fun split_char :: "char \<Rightarrow> string \<Rightarrow> string list" where
  "split_char c [] = [[]]"
| "split_char c (x # xs) =
     (if x = c then [] # split_char c xs
      else (case split_char c xs of [] \<Rightarrow> [[x]] | w # ws \<Rightarrow> (x # w) # ws))"

text \<open>\<^verbatim>\<open>sep.join(xs)\<close> for a separator of one character.\<close>

fun join_char :: "char \<Rightarrow> string list \<Rightarrow> string" where
  "join_char c [] = []"
| "join_char c [x] = x"
| "join_char c (x # y # ys) = x @ c # join_char c (y # ys)"

text \<open>
  \<^verbatim>\<open>s.split(d, 1)\<close>: \<open>Some (before, after)\<close> when the delimiter occurs (two parts, cut at
  its first occurrence), \<open>None\<close> when it does not (one part, the string itself).
\<close>

fun split_once :: "string \<Rightarrow> string \<Rightarrow> (string \<times> string) option" where
  "split_once d [] = (if d = [] then Some ([], []) else None)"
| "split_once d (x # xs) =
     (if startswith (x # xs) d then Some ([], drop (length d) (x # xs))
      else map_option (\<lambda>(a, b). (x # a, b)) (split_once d xs))"

text \<open>
  \<^verbatim>\<open>s.strip()\<close> removes leading and trailing whitespace; among the code points below 256
  these are the space, the controls 9 to 13 and 28 to 31, the next-line control 133 and the
  no-break space 160.
\<close>

definition is_space :: "char \<Rightarrow> bool" where
  "is_space c =
     (let n = (of_char c :: nat)
      in n = 32 \<or> (9 \<le> n \<and> n \<le> 13) \<or> (28 \<le> n \<and> n \<le> 31) \<or> n = 133 \<or> n = 160)"

definition strip :: "string \<Rightarrow> string" where
  "strip s = rev (dropWhile is_space (rev (dropWhile is_space s)))"

section \<open>\<^verbatim>\<open>os.path\<close> on POSIX\<close>

text \<open>
  The path functions the program imports from \<^verbatim>\<open>os.path\<close>, as \<^verbatim>\<open>posixpath\<close> defines
  them. The working directory that \<^verbatim>\<open>abspath\<close> and \<^verbatim>\<open>relpath\<close> read with
  \<^verbatim>\<open>os.getcwd()\<close> is the explicit argument \<open>cwd\<close>.
\<close>

abbreviation sep :: char where "sep \<equiv> CHR ''/''"

text \<open>\<^verbatim>\<open>join(a, b)\<close>; \<^verbatim>\<open>join(a, *p)\<close> folds it over \<open>p\<close>.\<close>

definition join2 :: "string \<Rightarrow> string \<Rightarrow> string" where
  "join2 path b =
     (if startswith b [sep] then b
      else if path = [] \<or> last path = sep then path @ b
      else path @ sep # b)"

definition join :: "string \<Rightarrow> string list \<Rightarrow> string" where
  "join a p = foldl join2 a p"

text \<open>
  \<^verbatim>\<open>normpath\<close>: the loop over the components keeps \<open>new_comps\<close>; \<open>initial_slashes\<close>
  is 0, 1 or 2.
\<close>

definition normpath_step :: "nat \<Rightarrow> string list \<Rightarrow> string \<Rightarrow> string list" where
  "normpath_step initial_slashes new_comps component =
     (if component = [] \<or> component = ''.'' then new_comps
      else if component \<noteq> ''..'' \<or> (initial_slashes = 0 \<and> new_comps = [])
              \<or> (new_comps \<noteq> [] \<and> last new_comps = ''..'')
        then new_comps @ [component]
      else if new_comps \<noteq> [] then butlast new_comps
      else new_comps)"

definition normpath :: "string \<Rightarrow> string" where
  "normpath path =
     (if path = [] then ''.''
      else
        let initial_slashes =
              (if startswith path ''/''
               then (if startswith path ''//'' \<and> \<not> startswith path ''///'' then 2 else 1)
               else (0::nat));
            comps = foldl (normpath_step initial_slashes) [] (split_char sep path);
            path' = replicate initial_slashes sep @ join_char sep comps
        in if path' = [] then ''.'' else path')"

definition abspath :: "string \<Rightarrow> string \<Rightarrow> string" where
  "abspath cwd path = normpath (if startswith path ''/'' then path else join2 cwd path)"

text \<open>\<^verbatim>\<open>commonprefix\<close> of two component lists: their longest common prefix.\<close>

fun commonprefix :: "string list \<Rightarrow> string list \<Rightarrow> string list" where
  "commonprefix (x # xs) (y # ys) = (if x = y then x # commonprefix xs ys else [])"
| "commonprefix _ _ = []"

text \<open>\<^verbatim>\<open>relpath(path, start)\<close> raises \<^verbatim>\<open>ValueError\<close> on the empty path.\<close>

definition relpath :: "string \<Rightarrow> string \<Rightarrow> string \<Rightarrow> error + string" where
  "relpath cwd path start =
     (if path = [] then Inl ValueError
      else
        let start_list = filter (\<lambda>x. x \<noteq> []) (split_char sep (abspath cwd start));
            path_list = filter (\<lambda>x. x \<noteq> []) (split_char sep (abspath cwd path));
            i = length (commonprefix start_list path_list);
            rel_list = replicate (length start_list - i) ''..'' @ drop i path_list
        in if rel_list = [] then Inr ''.'' else Inr (join (hd rel_list) (tl rel_list)))"

text \<open>
  \<^verbatim>\<open>basename\<close> and \<^verbatim>\<open>dirname\<close> cut at \<^verbatim>\<open>p.rfind('/') + 1\<close>: \<open>path_head\<close> is
  \<^verbatim>\<open>p[:i]\<close> (up to and including the last separator), \<open>basename\<close> is \<^verbatim>\<open>p[i:]\<close>.
  \<^verbatim>\<open>dirname\<close> strips the trailing separators of the head unless it consists of separators
  only.
\<close>

definition path_head :: "string \<Rightarrow> string" where
  "path_head p = rev (dropWhile (\<lambda>c. c \<noteq> sep) (rev p))"

definition basename :: "string \<Rightarrow> string" where
  "basename p = rev (takeWhile (\<lambda>c. c \<noteq> sep) (rev p))"

definition dirname :: "string \<Rightarrow> string" where
  "dirname p =
     (let head = path_head p
      in if head \<noteq> [] \<and> head \<noteq> replicate (length head) sep
         then rev (dropWhile (\<lambda>c. c = sep) (rev head))
         else head)"

text \<open>
  \<^verbatim>\<open>splitext\<close>: the extension starts at the last dot of the last component, provided a
  character other than a dot precedes it in that component; otherwise the extension is
  empty. \<open>stem\<close> is the part of the last component before its last dot.
\<close>

definition splitext :: "string \<Rightarrow> string \<times> string" where
  "splitext p =
     (let tail = basename p
      in if CHR ''.'' \<in> set tail
         then
           let stem = rev (tl (dropWhile (\<lambda>c. c \<noteq> CHR ''.'') (rev tail)));
               e = CHR ''.'' # rev (takeWhile (\<lambda>c. c \<noteq> CHR ''.'') (rev tail))
           in if list_ex (\<lambda>c. c \<noteq> CHR ''.'') stem then (path_head p @ stem, e) else (p, [])
         else (p, []))"

section \<open>The file system\<close>

text \<open>
  The disk holds regular files, keyed by their normalised absolute path, each with its
  bytes. Directories are implicit: one exists when a file lies below it, so
  \<^verbatim>\<open>os.makedirs\<close> changes nothing here. Symbolic links, permissions and empty directories
  are outside the model.
\<close>

type_synonym disk = "string dict"

definition isfile :: "string \<Rightarrow> disk \<Rightarrow> string \<Rightarrow> bool" where
  "isfile cwd fs p = dict_contains fs (abspath cwd p)"

text \<open>
  What the program takes from the operating system: the working directory, and the codec
  of the locale, with which \<^verbatim>\<open>open\<close> in text mode decodes the bytes it reads (raising
  \<^verbatim>\<open>UnicodeDecodeError\<close> on bytes that are not in the encoding) and encodes the text it
  writes.
\<close>

record Sys =
  getcwd :: string
  decode :: "string \<Rightarrow> error + string"
  encode :: "string \<Rightarrow> error + string"

text \<open>
  Reading in text mode turns every line ending, \<^verbatim>\<open>CR LF\<close> or \<^verbatim>\<open>CR\<close> alone, into
  \<^verbatim>\<open>LF\<close>.
\<close>

fun universal_newlines :: "string \<Rightarrow> string" where
  "universal_newlines [] = []"
| "universal_newlines [c] = (if c = CHR 0x0D then [CHR 0x0A] else [c])"
| "universal_newlines (c # d # cs) =
     (if c = CHR 0x0D \<and> d = CHR 0x0A then CHR 0x0A # universal_newlines cs
      else if c = CHR 0x0D then CHR 0x0A # universal_newlines (d # cs)
      else c # universal_newlines (d # cs))"

text \<open>\<^verbatim>\<open>open(p).read()\<close>, in text mode.\<close>

definition read_file :: "'a Sys_scheme \<Rightarrow> disk \<Rightarrow> string \<Rightarrow> error + string" where
  "read_file sys fs p =
     (case dict_get fs (abspath (getcwd sys) p) of
        None \<Rightarrow> Inl FileNotFoundError
      | Some bytes \<Rightarrow>
         (case decode sys bytes of
            Inl e \<Rightarrow> Inl e
          | Inr s \<Rightarrow> Inr (universal_newlines s)))"

text \<open>
  \<^verbatim>\<open>open(p, mode='w').write(s)\<close>, in text mode; on POSIX the line endings are written
  as they are.
\<close>

definition write_file :: "'a Sys_scheme \<Rightarrow> disk \<Rightarrow> string \<Rightarrow> string \<Rightarrow> error + disk" where
  "write_file sys fs p s =
     (case encode sys s of
        Inl e \<Rightarrow> Inl e
      | Inr bytes \<Rightarrow> Inr (dict_set fs (abspath (getcwd sys) p) bytes))"

text \<open>\<^verbatim>\<open>open(p, "wb").write(bytes)\<close>\<close>

definition write_bytes :: "string \<Rightarrow> disk \<Rightarrow> string \<Rightarrow> string \<Rightarrow> disk" where
  "write_bytes cwd fs p bytes = dict_set fs (abspath cwd p) bytes"

text \<open>The part of \<open>k\<close> below the directory \<open>d\<close>, when \<open>k\<close> lies below it.\<close>

definition below :: "string \<Rightarrow> string \<Rightarrow> string option" where
  "below d k =
     (let d' = (if d \<noteq> [] \<and> last d = sep then d else d @ [sep])
      in if startswith k d' \<and> length d' < length k then Some (drop (length d') k) else None)"

text \<open>
  \<^verbatim>\<open>ls_relative\<close>: every file below \<open>list_path\<close>, relative to it, sorted. A directory
  that does not exist has no file below it, so the guard's early return and the walk agree.
\<close>

definition ls_relative :: "string \<Rightarrow> disk \<Rightarrow> string \<Rightarrow> string list" where
  "ls_relative cwd fs list_path =
     sort (List.map_filter (\<lambda>k. below (abspath cwd list_path) k) (map fst fs))"

section \<open>ContentCache\<close>

record ContentCache =
  root :: string
  files :: "string dict"
  templates :: "string dict"

definition ContentCache_init :: "string \<Rightarrow> ContentCache" where
  "ContentCache_init r = \<lparr>root = r, files = [], templates = []\<rparr>"

text \<open>\<^verbatim>\<open>peek\<close> reads the file in text mode when it exists, so it can raise.\<close>

definition ContentCache_peek ::
  "'a Sys_scheme \<Rightarrow> disk \<Rightarrow> ContentCache \<Rightarrow> string \<Rightarrow> error + string option" where
  "ContentCache_peek sys fs c filename =
     (let file = join (root c) [filename]
      in if isfile (getcwd sys) fs file
         then (case read_file sys fs file of
                 Inl e \<Rightarrow> Inl e
               | Inr content \<Rightarrow> Inr (Some content))
         else Inr None)"

text \<open>
  \<^verbatim>\<open>set\<close>: the two \<^verbatim>\<open>if\<close>s on the prefix, then the store into \<open>files\<close>. \<^verbatim>\<open>relpath\<close>
  can raise, so the result is a sum.
\<close>

definition ContentCache_set ::
  "string \<Rightarrow> ContentCache \<Rightarrow> string \<Rightarrow> string \<Rightarrow> error + ContentCache" where
  "ContentCache_set cwd c filename content =
     (case (if startswith filename ''content''
            then (if snd (splitext filename) \<noteq> ''.md''
                  then (case relpath cwd filename ''content'' of
                          Inl e \<Rightarrow> Inl e
                        | Inr k \<Rightarrow> Inr (dict_set (templates c) k content))
                  else Inr (templates c))
            else Inr (templates c)) of
        Inl e \<Rightarrow> Inl e
      | Inr t1 \<Rightarrow>
         (case (if startswith filename ''layouts''
                then (case relpath cwd filename ''layouts'' of
                        Inl e \<Rightarrow> Inl e
                      | Inr k \<Rightarrow> Inr (dict_set t1 k content))
                else Inr t1) of
            Inl e \<Rightarrow> Inl e
          | Inr t2 \<Rightarrow> Inr (c\<lparr>templates := t2, files := dict_set (files c) filename content\<rparr>)))"

definition ContentCache_read ::
  "'a Sys_scheme \<Rightarrow> disk \<Rightarrow> ContentCache \<Rightarrow> string
     \<Rightarrow> error + (string option \<times> ContentCache)" where
  "ContentCache_read sys fs c filename =
     (case ContentCache_peek sys fs c filename of
        Inl e \<Rightarrow> Inl e
      | Inr None \<Rightarrow> Inr (None, c)
      | Inr (Some content) \<Rightarrow>
         (case ContentCache_set (getcwd sys) c filename content of
            Inl e \<Rightarrow> Inl e
          | Inr c' \<Rightarrow> Inr (Some content, c')))"

definition ContentCache_get :: "ContentCache \<Rightarrow> string \<Rightarrow> string option" where
  "ContentCache_get c filename =
     (if dict_contains (files c) filename then dict_get (files c) filename else None)"

definition ContentCache_delete :: "ContentCache \<Rightarrow> string \<Rightarrow> error + ContentCache" where
  "ContentCache_delete c filename =
     (case dict_del (files c) filename of
        Inl e \<Rightarrow> Inl e
      | Inr f \<Rightarrow> Inr (c\<lparr>files := f\<rparr>))"

text \<open>
  \<^verbatim>\<open>move\<close>: \<^verbatim>\<open>self.get(old)\<close> is a string here, since \<open>old\<close> is a key of \<open>files\<close>.
\<close>

definition ContentCache_move :: "string \<Rightarrow> ContentCache \<Rightarrow> string \<Rightarrow> string \<Rightarrow> error + ContentCache" where
  "ContentCache_move cwd c old new =
     (if \<not> dict_contains (files c) old then Inr c
      else (case ContentCache_get c old of
              None \<Rightarrow> Inl TypeError
            | Some content \<Rightarrow>
               (case ContentCache_set cwd c new content of
                  Inl e \<Rightarrow> Inl e
                | Inr c' \<Rightarrow> ContentCache_delete c' old)))"

text \<open>\<^verbatim>\<open>warm\<close>: the inner loop reads each listed file, the outer loop runs over the two trees.\<close>

fun read_all ::
  "'a Sys_scheme \<Rightarrow> disk \<Rightarrow> ContentCache \<Rightarrow> string list \<Rightarrow> error + ContentCache" where
  "read_all sys fs c [] = Inr c"
| "read_all sys fs c (f # fs') =
     (case ContentCache_read sys fs c f of
        Inl e \<Rightarrow> Inl e
      | Inr (_, c') \<Rightarrow> read_all sys fs c' fs')"

definition warm_tree ::
  "'a Sys_scheme \<Rightarrow> disk \<Rightarrow> ContentCache \<Rightarrow> string \<Rightarrow> error + ContentCache" where
  "warm_tree sys fs c path =
     read_all sys fs c
       (map (\<lambda>file. join path [file]) (ls_relative (getcwd sys) fs (join (root c) [path])))"

definition ContentCache_warm :: "'a Sys_scheme \<Rightarrow> disk \<Rightarrow> ContentCache \<Rightarrow> error + ContentCache" where
  "ContentCache_warm sys fs c =
     (case warm_tree sys fs c ''content'' of
        Inl e \<Rightarrow> Inl e
      | Inr c' \<Rightarrow> warm_tree sys fs c' ''layouts'')"

text \<open>
  The projection the cache is meant to keep. A path \<open>p\<close> of \<open>files\<close> backs the template
  name \<open>k\<close> when \<^verbatim>\<open>set\<close> on \<open>p\<close> writes \<open>k\<close>; \<open>templates\<close> is a projection of
  \<open>files\<close> when each of its names is backed by a present path with the same content.
\<close>

definition backs :: "string \<Rightarrow> string \<Rightarrow> string \<Rightarrow> bool" where
  "backs cwd p k =
     ((startswith p ''content'' \<and> snd (splitext p) \<noteq> ''.md'' \<and> relpath cwd p ''content'' = Inr k)
      \<or> (startswith p ''layouts'' \<and> relpath cwd p ''layouts'' = Inr k))"

definition templates_projection :: "string \<Rightarrow> ContentCache \<Rightarrow> bool" where
  "templates_projection cwd c =
     list_all (\<lambda>k. list_ex (\<lambda>p. backs cwd p k \<and> dict_get (files c) p = dict_get (templates c) k)
                      (map fst (files c)))
       (map fst (templates c))"

section \<open>Page\<close>

text \<open>
  The attributes of a \<^verbatim>\<open>Page\<close> object. The reference to the site is passed to the
  functions instead of being stored. \<open>slug\<close> is a string from construction on and is never
  assigned \<^verbatim>\<open>None\<close>; the attributes that start as \<^verbatim>\<open>None\<close> are options.
\<close>

record Page =
  parsed :: bool
  page_abspath :: string
  filepath :: string
  folder :: string
  slug :: string
  ext :: string
  url :: string
  date :: "string option"
  tags :: "string list option"
  template :: "string option"
  title :: "string option"
  body :: "string option"
  content :: "string option"
  rendered :: "string option"

section \<open>Site\<close>

record Site =
  root :: string
  cache :: ContentCache
  markdown_plugins :: "string list"
  pagedata :: "Page list"

text \<open>
  What the program takes from outside: the operating system as above, and the three
  libraries it calls. \<open>parser_items\<close> is \<^verbatim>\<open>ConfigParser\<close> reading a string and listing the items of
  the section \<^verbatim>\<open>Metadata\<close>; \<open>markdown\<close> is \<^verbatim>\<open>markdown.markdown(body, extensions)\<close>;
  \<open>jinja_render\<close> compiles a template source and renders it with the attributes of the
  page and the keyword \<^verbatim>\<open>site\<close>. The Jinja environment loads its templates from the
  dictionary \<open>templates\<close> of the cache itself, so \<^verbatim>\<open>get_template\<close> is a lookup there.
\<close>

record Env = Sys +
  parser_items :: "string \<Rightarrow> error + (string \<times> string) list"
  markdown :: "string \<Rightarrow> string list \<Rightarrow> string"
  jinja_render :: "string \<Rightarrow> Page \<Rightarrow> Site \<Rightarrow> error + string"

definition page_like :: "string list" where
  "page_like = [''.html'', ''.md'', ''.markdown'']"

definition Page_get_folder :: "string \<Rightarrow> string" where
  "Page_get_folder fp = dirname fp"

definition Page_get_default_slug :: "string \<Rightarrow> string" where
  "Page_get_default_slug fp =
     (let slug = fst (splitext (basename fp)) in if slug = ''index'' then [] else slug)"

definition Page_get_extension :: "string \<Rightarrow> string" where
  "Page_get_extension fp = snd (splitext fp)"

definition Page_get_url :: "Page \<Rightarrow> string" where
  "Page_get_url p =
     (if ext p \<in> set page_like then ''/'' @ normpath (join (folder p) [slug p]) @ ''/''
      else ''/'' @ join (folder p) [slug p @ ext p])"

text \<open>\<^verbatim>\<open>Page.__init__(filepath, site)\<close>; of the site it reads \<^verbatim>\<open>site.root\<close>.\<close>

definition Page_init :: "Env \<Rightarrow> string \<Rightarrow> string \<Rightarrow> error + Page" where
  "Page_init env site_root path =
     (case relpath (getcwd env) path (join site_root [''content'']) of
        Inl e \<Rightarrow> Inl e
      | Inr fp \<Rightarrow>
         (let p = \<lparr>parsed = False, page_abspath = abspath (getcwd env) path, filepath = fp,
                    folder = Page_get_folder fp, slug = Page_get_default_slug fp,
                    ext = Page_get_extension fp, url = [], date = None, tags = None,
                    template = None, title = None, body = None, content = None,
                    rendered = None\<rparr>
          in Inr (p\<lparr>url := Page_get_url p\<rparr>)))"

definition Page_get_target :: "Page \<Rightarrow> error + string" where
  "Page_get_target p =
     (if \<not> parsed p then Inl RuntimeError
      else if ext p \<in> set page_like then Inr (normpath (join (folder p) [slug p, ''index.html'']))
      else Inr (normpath (join (folder p) [slug p @ ext p])))"

text \<open>
  \<^verbatim>\<open>parse_metadata\<close>, after the parser has produced the table \<open>values\<close>: the loop over
  \<^verbatim>\<open>["tags", "date", "title", "slug", "template"]\<close>, unrolled. A key keeps its attribute when
  the table has no entry for it and the attribute is not \<^verbatim>\<open>None\<close>. The warnings are log
  lines only.
\<close>

definition assign_optional :: "'a option \<Rightarrow> 'a option \<Rightarrow> 'a option" where
  "assign_optional current v = (if v = None \<and> current \<noteq> None then current else v)"

definition assign_metadata :: "string dict \<Rightarrow> Page \<Rightarrow> Page" where
  "assign_metadata values p0 =
     (let p1 = p0\<lparr>tags := Some (case dict_get values ''tags'' of
                                    Some v \<Rightarrow> split_char CHR '' '' v
                                  | None \<Rightarrow> [])\<rparr>;
          p2 = p1\<lparr>date := assign_optional (date p1) (dict_get values ''date'')\<rparr>;
          p3 = p2\<lparr>title := assign_optional (title p2) (dict_get values ''title'')\<rparr>;
          p4 = (case dict_get values ''slug'' of None \<Rightarrow> p3 | Some v \<Rightarrow> p3\<lparr>slug := v\<rparr>);
          p5 = p4\<lparr>template := assign_optional (template p4) (dict_get values ''template'')\<rparr>
      in p5\<lparr>url := Page_get_url p5, parsed := True\<rparr>)"

definition Page_parse_metadata :: "Env \<Rightarrow> string \<Rightarrow> Page \<Rightarrow> error + Page" where
  "Page_parse_metadata env text p =
     (case parser_items env (''[Metadata]'' @ [CHR 0x0A] @ text) of
        Inl e \<Rightarrow> Inl e
      | Inr items \<Rightarrow> Inr (assign_metadata (foldl (\<lambda>values (k, v). dict_set values k v) [] items) p))"

definition Page_render :: "Env \<Rightarrow> Site \<Rightarrow> Page \<Rightarrow> error + Page" where
  "Page_render env site p =
     (case (if ext p \<in> set [''.md'', ''.markdown'']
            then (case body p of
                    None \<Rightarrow> Inl AttributeError
                  | Some b \<Rightarrow>
                     Inr (p\<lparr>content := Some (markdown env b (markdown_plugins site))\<rparr>,
                          (case template p of Some t \<Rightarrow> t | None \<Rightarrow> ''markdown.html'')))
            else Inr (p, filepath p)) of
        Inl e \<Rightarrow> Inl e
      | Inr (p', name) \<Rightarrow>
         (case dict_get (templates (cache site)) name of
            None \<Rightarrow> Inl TemplateNotFound
          | Some source \<Rightarrow>
             (case jinja_render env source p' site of
                Inl e \<Rightarrow> Inl e
              | Inr out \<Rightarrow> Inr (p'\<lparr>rendered := Some out\<rparr>))))"

text \<open>
  \<^verbatim>\<open>render_to_disk\<close> returns the page as rendered and the disk after the write to
  \<^verbatim>\<open>output/<filepath>\<close>.
\<close>

definition Page_render_to_disk :: "Env \<Rightarrow> Site \<Rightarrow> disk \<Rightarrow> Page \<Rightarrow> error + Page \<times> disk" where
  "Page_render_to_disk env site fs p =
     (case Page_render env site p of
        Inl e \<Rightarrow> Inl e
      | Inr p' \<Rightarrow>
         (case rendered p' of
            None \<Rightarrow> Inl TypeError
          | Some output \<Rightarrow>
             (case write_file env fs (join (root site) [''output'', filepath p]) output of
                Inl e \<Rightarrow> Inl e
              | Inr fs' \<Rightarrow> Inr (p', fs'))))"

definition Page_parse_string :: "Env \<Rightarrow> string \<Rightarrow> string \<Rightarrow> string \<Rightarrow> error + Page" where
  "Page_parse_string env site_root path text =
     (case Page_init env site_root path of
        Inl e \<Rightarrow> Inl e
      | Inr page \<Rightarrow>
         (case split_once ''++++'' text of
            Some (meta, rest) \<Rightarrow>
              (case Page_parse_metadata env (strip meta) page of
                 Inl e \<Rightarrow> Inl e
               | Inr page' \<Rightarrow> Inr (page'\<lparr>body := Some (strip rest)\<rparr>))
          | None \<Rightarrow> Inr (page\<lparr>body := Some (strip text), parsed := True\<rparr>)))"

definition Page_parse_file :: "Env \<Rightarrow> disk \<Rightarrow> string \<Rightarrow> string \<Rightarrow> error + Page" where
  "Page_parse_file env fs site_root path =
     (case read_file env fs path of
        Inl e \<Rightarrow> Inl e
      | Inr text \<Rightarrow> Page_parse_string env site_root path text)"

text \<open>
  \<^verbatim>\<open>Site.__init__\<close>: the cache is built over the root as given and warmed from the disk.
\<close>

definition Site_init :: "Env \<Rightarrow> disk \<Rightarrow> string \<Rightarrow> error + Site" where
  "Site_init env fs r =
     (case ContentCache_warm env fs (ContentCache_init r) of
        Inl e \<Rightarrow> Inl e
      | Inr c \<Rightarrow>
         Inr \<lparr>root = abspath (getcwd env) r, cache = c,
              markdown_plugins = [''markdown.extensions.fenced_code'',
                                  ''markdown.extensions.codehilite''],
              pagedata = []\<rparr>)"

text \<open>
  \<^verbatim>\<open>get_pages\<close>: the loop over the keys of \<^verbatim>\<open>self.cache.files\<close>. Each page is rendered
  against the site as it is at that moment and then appended to \<^verbatim>\<open>self.pagedata\<close>; the
  method returns that same list.
\<close>

fun get_pages_loop :: "Env \<Rightarrow> disk \<Rightarrow> Site \<Rightarrow> string list \<Rightarrow> error + Site" where
  "get_pages_loop env fs site [] = Inr site"
| "get_pages_loop env fs site (file # rest) =
     (if \<not> startswith file ''content'' then get_pages_loop env fs site rest
      else
        let source_file = join (root site) [file]
        in if isfile (getcwd env) fs source_file
           then (case Page_parse_file env fs (root site) source_file of
                   Inl e \<Rightarrow> Inl e
                 | Inr page \<Rightarrow>
                    (case Page_render env site page of
                       Inl e \<Rightarrow> Inl e
                     | Inr page' \<Rightarrow>
                        get_pages_loop env fs (site\<lparr>pagedata := pagedata site @ [page']\<rparr>) rest))
           else get_pages_loop env fs site rest)"

definition Site_get_pages :: "Env \<Rightarrow> disk \<Rightarrow> Site \<Rightarrow> error + Site" where
  "Site_get_pages env fs site = get_pages_loop env fs site (map fst (files (cache site)))"

text \<open>\<^verbatim>\<open>s.replace(old, new)\<close>\<close>

function py_replace :: "string \<Rightarrow> string \<Rightarrow> string \<Rightarrow> string" where
  "py_replace old new [] = (if old = [] then new else [])"
| "py_replace old new (x # xs) =
     (if old = [] then new @ x # py_replace old new xs
      else if startswith (x # xs) old then new @ py_replace old new (drop (length old) (x # xs))
      else x # py_replace old new xs)"
  by pat_completeness auto
termination
  by (relation "measure (\<lambda>(old, new, s). length s)") auto

text \<open>
  \<^verbatim>\<open>copy_static\<close>: every file below \<^verbatim>\<open>static/\<close> is copied, byte for byte, to the
  path the source computes for it. The walk is taken in the order of the disk.
\<close>

definition static_output_file :: "Site \<Rightarrow> string \<Rightarrow> string \<Rightarrow> string" where
  "static_output_file site static_dir source_path =
     (let source_file = ''.'' @ py_replace static_dir [] source_path
      in normpath (join (root site) [''output'', source_file]))"

definition Site_copy_static :: "Env \<Rightarrow> Site \<Rightarrow> disk \<Rightarrow> disk" where
  "Site_copy_static env site fs =
     (let static_dir = abspath (getcwd env) (join (root site) [''static''])
      in foldl (\<lambda>fs' (source_path, contents).
                  write_bytes (getcwd env) fs' (static_output_file site static_dir source_path) contents)
           fs (filter (\<lambda>(k, _). below static_dir k \<noteq> None) fs))"

text \<open>
  The loop of \<^verbatim>\<open>build\<close> over \<^verbatim>\<open>self.pagedata\<close>: \<open>written\<close> are the pages already written,
  as their last render left them, and the rest are still to come. A render sees the whole
  list.
\<close>

fun build_loop :: "Env \<Rightarrow> Site \<Rightarrow> disk \<Rightarrow> Page list \<Rightarrow> Page list \<Rightarrow> error + Site \<times> disk" where
  "build_loop env site fs written [] = Inr (site\<lparr>pagedata := written\<rparr>, fs)"
| "build_loop env site fs written (page # todo) =
     (case Page_get_target page of
        Inl e \<Rightarrow> Inl e
      | Inr target \<Rightarrow>
         (let output_filename = join (root site) [''output'', target]
          in case Page_render env (site\<lparr>pagedata := written @ page # todo\<rparr>) page of
               Inl e \<Rightarrow> Inl e
             | Inr page' \<Rightarrow>
                (case rendered page' of
                   None \<Rightarrow> Inl TypeError
                 | Some output \<Rightarrow>
                    (case write_file env fs output_filename output of
                       Inl e \<Rightarrow> Inl e
                     | Inr fs' \<Rightarrow> build_loop env site fs' (written @ [page']) todo))))"

definition Site_build :: "Env \<Rightarrow> Site \<times> disk \<Rightarrow> error + Site \<times> disk" where
  "Site_build env st =
     (case Site_get_pages env (snd st) (fst st) of
        Inl e \<Rightarrow> Inl e
      | Inr site1 \<Rightarrow>
         (case build_loop env site1 (snd st) [] (pagedata site1) of
            Inl e \<Rightarrow> Inl e
          | Inr (site2, fs2) \<Rightarrow> Inr (site2, Site_copy_static env site2 fs2)))"

text \<open>The files below \<^verbatim>\<open>output/\<close>, which a build is judged by.\<close>

definition output_files :: "Env \<Rightarrow> Site \<Rightarrow> disk \<Rightarrow> disk" where
  "output_files env site fs =
     filter (\<lambda>(k, _). below (abspath (getcwd env) (join (root site) [''output''])) k \<noteq> None) fs"

subsection \<open>\<^verbatim>\<open>Site.pages\<close>\<close>

text \<open>
  The values \<^verbatim>\<open>getattr(page, name)\<close> can give: \<open>VObj\<close> stands for the values that have
  no order, which are the site, the methods, the class and the attribute dictionary. The
  names are those that \<^verbatim>\<open>Page\<close> and its instances define and those that every object
  has (as of Python 3.11); of the latter, \<^verbatim>\<open>__doc__\<close> is the docstring of the class,
  \<^verbatim>\<open>__module__\<close> is the name under which the module was loaded, here \<^verbatim>\<open>icecake\<close>
  and in any case the same for every page, and \<^verbatim>\<open>__weakref__\<close> is \<^verbatim>\<open>None\<close>.
\<close>

datatype pyval = VNone | VBool bool | VStr string | VList "string list" | VObj

definition of_optional :: "string option \<Rightarrow> pyval" where
  "of_optional v = (case v of None \<Rightarrow> VNone | Some s \<Rightarrow> VStr s)"

definition Page_doc :: string where
  "Page_doc =
     [CHR 0x0A] @ ''    A page is any discrete piece of content that will appear in your output''
     @ [CHR 0x0A] @ ''    folder. At minimum a page should have a body, title, and slug so it can be''
     @ [CHR 0x0A] @ ''    rendered. However, a page may have additional metadata like date or tags.''
     @ [CHR 0x0A] @ ''    ''"

definition Page_getattr :: "Page \<Rightarrow> string \<Rightarrow> error + pyval" where
  "Page_getattr p name =
     (if name = ''parsed'' then Inr (VBool (parsed p))
      else if name = ''abspath'' then Inr (VStr (page_abspath p))
      else if name = ''filepath'' then Inr (VStr (filepath p))
      else if name = ''folder'' then Inr (VStr (folder p))
      else if name = ''slug'' then Inr (VStr (slug p))
      else if name = ''ext'' then Inr (VStr (ext p))
      else if name = ''url'' then Inr (VStr (url p))
      else if name = ''date'' then Inr (of_optional (date p))
      else if name = ''tags'' then Inr (case tags p of None \<Rightarrow> VNone | Some ts \<Rightarrow> VList ts)
      else if name = ''template'' then Inr (of_optional (template p))
      else if name = ''title'' then Inr (of_optional (title p))
      else if name = ''body'' then Inr (of_optional (body p))
      else if name = ''content'' then Inr (of_optional (content p))
      else if name = ''rendered'' then Inr (of_optional (rendered p))
      else if name = ''metadata'' then Inr (VList [''tags'', ''date'', ''title'', ''slug'', ''template''])
      else if name = ''required'' then Inr (VList [''date'', ''title''])
      else if name = ''metadelimiter'' then Inr (VStr ''++++'')
      else if name \<in> set [''site'', ''get_target'', ''parse_metadata'', ''render'', ''render_to_disk'',
                            ''parse_string'', ''parse_file'', ''_get_folder'', ''_get_default_slug'',
                            ''_get_extension'', ''_get_url'']
        then Inr VObj
      else if name = ''__doc__'' then Inr (VStr Page_doc)
      else if name = ''__module__'' then Inr (VStr ''icecake'')
      else if name = ''__weakref__'' then Inr VNone
      else if name \<in> set [''__class__'', ''__delattr__'', ''__dict__'', ''__dir__'', ''__eq__'',
                            ''__format__'', ''__ge__'', ''__getattribute__'', ''__getstate__'',
                            ''__gt__'', ''__hash__'',
                            ''__init__'', ''__init_subclass__'', ''__le__'', ''__lt__'', ''__ne__'',
                            ''__new__'', ''__reduce__'', ''__reduce_ex__'', ''__repr__'',
                            ''__setattr__'', ''__sizeof__'', ''__str__'', ''__subclasshook__'']
        then Inr VObj
      else Inl AttributeError)"

fun getattrs :: "Page list \<Rightarrow> string \<Rightarrow> error + pyval list" where
  "getattrs [] name = Inr []"
| "getattrs (p # ps) name =
     (case Page_getattr p name of
        Inl e \<Rightarrow> Inl e
      | Inr v \<Rightarrow> (case getattrs ps name of Inl e \<Rightarrow> Inl e | Inr vs \<Rightarrow> Inr (v # vs)))"

text \<open>
  \<^verbatim>\<open>list.sort(key=..., reverse=rev)\<close> is stable; with \<^verbatim>\<open>reverse\<close> it keeps the order of
  equal keys as well, being the reverse of the stable sort of the reversed list.
\<close>

definition py_sort :: "('a \<Rightarrow> 'k::linorder) \<Rightarrow> bool \<Rightarrow> 'a list \<Rightarrow> 'a list" where
  "py_sort key reverse xs = (if reverse then rev (sort_key key (rev xs)) else sort_key key xs)"

definition the_str :: "pyval \<Rightarrow> string" where
  "the_str v = (case v of VStr s \<Rightarrow> s | _ \<Rightarrow> [])"

definition the_bool :: "pyval \<Rightarrow> bool" where
  "the_bool v = (case v of VBool b \<Rightarrow> b | _ \<Rightarrow> False)"

definition the_list :: "pyval \<Rightarrow> string list" where
  "the_list v = (case v of VList l \<Rightarrow> l | _ \<Rightarrow> [])"

definition is_str :: "pyval \<Rightarrow> bool" where
  "is_str v = (case v of VStr _ \<Rightarrow> True | _ \<Rightarrow> False)"

definition is_bool :: "pyval \<Rightarrow> bool" where
  "is_bool v = (case v of VBool _ \<Rightarrow> True | _ \<Rightarrow> False)"

definition is_list :: "pyval \<Rightarrow> bool" where
  "is_list v = (case v of VList _ \<Rightarrow> True | _ \<Rightarrow> False)"

text \<open>
  Sorting the pages by the attribute \<open>name\<close>. The keys are computed first. A list of fewer
  than two pages is compared with nothing; otherwise the keys must be all strings, all
  booleans or all lists of strings, and any other mix raises \<^verbatim>\<open>TypeError\<close> (Python 3).
\<close>

definition sort_pages :: "string \<Rightarrow> bool \<Rightarrow> Page list \<Rightarrow> error + Page list" where
  "sort_pages name reverse ps =
     (case getattrs ps name of
        Inl e \<Rightarrow> Inl e
      | Inr keys \<Rightarrow>
         if length ps < 2 then Inr ps
         else if list_all is_str keys
           then Inr (map snd (py_sort (\<lambda>kp. the_str (fst kp)) reverse (zip keys ps)))
         else if list_all is_bool keys
           then Inr (map snd (py_sort (\<lambda>kp. the_bool (fst kp)) reverse (zip keys ps)))
         else if list_all is_list keys
           then Inr (map snd (py_sort (\<lambda>kp. the_list (fst kp)) reverse (zip keys ps)))
         else Inl TypeError)"

text \<open>The sort key of a page for an attribute that holds a string.\<close>

definition str_key :: "string \<Rightarrow> Page \<Rightarrow> string" where
  "str_key name p = (case Page_getattr p name of Inr (VStr s) \<Rightarrow> s | _ \<Rightarrow> [])"

text \<open>
  The local variable \<^verbatim>\<open>items\<close> of \<^verbatim>\<open>pages\<close> names either the list object stored in
  \<^verbatim>\<open>self.pagedata\<close> or a list of its own, made by a comprehension. \<^verbatim>\<open>items.sort\<close>
  changes the object it names.
\<close>

datatype items = Stored | Fresh "Page list"

definition deref :: "Site \<Rightarrow> items \<Rightarrow> Page list" where
  "deref site it = (case it of Stored \<Rightarrow> pagedata site | Fresh xs \<Rightarrow> xs)"

definition sort_items :: "string \<Rightarrow> bool \<Rightarrow> Site \<Rightarrow> items \<Rightarrow> error + items \<times> Site" where
  "sort_items name reverse site it =
     (case sort_pages name reverse (deref site it) of
        Inl e \<Rightarrow> Inl e
      | Inr ps \<Rightarrow>
         (case it of
            Stored \<Rightarrow> Inr (Stored, site\<lparr>pagedata := ps\<rparr>)
          | Fresh _ \<Rightarrow> Inr (Fresh ps, site)))"

text \<open>\<^verbatim>\<open>[page for page in items if tag in page.tags]\<close>: \<^verbatim>\<open>in None\<close> raises.\<close>

fun filter_tag :: "string \<Rightarrow> Page list \<Rightarrow> error + Page list" where
  "filter_tag tag [] = Inr []"
| "filter_tag tag (p # ps) =
     (case tags p of
        None \<Rightarrow> Inl TypeError
      | Some ts \<Rightarrow>
         (case filter_tag tag ps of
            Inl e \<Rightarrow> Inl e
          | Inr rest \<Rightarrow> Inr (if tag \<in> set ts then p # rest else rest)))"

definition Site_pages ::
  "Site \<Rightarrow> string option \<Rightarrow> string option \<Rightarrow> int option \<Rightarrow> string option
     \<Rightarrow> error + Page list \<times> Site" where
  "Site_pages site path tag limit order =
     (let items1 = (case path of
                      None \<Rightarrow> Stored
                    | Some p \<Rightarrow> Fresh (filter (\<lambda>page. startswith (filepath page) p) (pagedata site)))
      in case (case tag of
                 None \<Rightarrow> Inr items1
               | Some t \<Rightarrow> (case filter_tag t (deref site items1) of
                              Inl e \<Rightarrow> Inl e
                            | Inr xs \<Rightarrow> Inr (Fresh xs))) of
           Inl e \<Rightarrow> Inl e
         | Inr items2 \<Rightarrow>
            (case (case order of
                     None \<Rightarrow> Inr (items2, site)
                   | Some ord \<Rightarrow>
                      (if ord = [] then Inl IndexError
                       else if hd ord = CHR ''-'' then sort_items (tl ord) True site items2
                       else sort_items ord False site items2)) of
               Inl e \<Rightarrow> Inl e
             | Inr (items3, site') \<Rightarrow>
                Inr (case limit of
                       None \<Rightarrow> deref site' items3
                     | Some l \<Rightarrow> if l > 0 then take (nat l) (deref site' items3)
                                else deref site' items3,
                     site')))"

section \<open>Handler\<close>

text \<open>
  The state the handler works on: the site, the disk, and the record of the pages that
  \<^verbatim>\<open>render_to_disk\<close> was called on, in the order of the calls.
\<close>

record World =
  site :: Site
  disk :: disk
  render_calls :: "Page list"

definition call_render_to_disk :: "Env \<Rightarrow> World \<Rightarrow> Page \<Rightarrow> error + World" where
  "call_render_to_disk env w page =
     (case Page_render_to_disk env (site w) (disk w) page of
        Inl e \<Rightarrow> Inl e
      | Inr (_, fs') \<Rightarrow> Inr (w\<lparr>disk := fs', render_calls := render_calls w @ [page]\<rparr>))"

text \<open>\<^verbatim>\<open>shutil.rmtree(path)\<close> removes the directory and all below it; it raises unless
  \<open>path\<close> is a directory.\<close>

definition rmtree :: "string \<Rightarrow> disk \<Rightarrow> string \<Rightarrow> error + disk" where
  "rmtree cwd fs path =
     (let d = abspath cwd path
      in if dict_contains fs d then Inl NotADirectoryError
         else if list_all (\<lambda>(k, _). below d k = None) fs then Inl FileNotFoundError
         else Inr (filter (\<lambda>(k, _). below d k = None) fs))"

definition Handler_on_created :: "Env \<Rightarrow> World \<Rightarrow> string \<Rightarrow> error + World" where
  "Handler_on_created env w src_path =
     (case ContentCache_read env (disk w) (cache (site w)) src_path of
        Inl e \<Rightarrow> Inl e
      | Inr (data, c') \<Rightarrow>
         (let w' = w\<lparr>site := (site w)\<lparr>cache := c'\<rparr>\<rparr>
          in case data of
               None \<Rightarrow> Inl AttributeError
             | Some text \<Rightarrow>
                (case Page_parse_string env (root (site w')) src_path text of
                   Inl e \<Rightarrow> Inl e
                 | Inr page \<Rightarrow> call_render_to_disk env w' page)))"

definition Handler_on_deleted :: "Env \<Rightarrow> World \<Rightarrow> string \<Rightarrow> error + World" where
  "Handler_on_deleted env w src_path =
     (if startswith src_path (join (root (site w)) [''content''])
         \<or> startswith src_path (join (root (site w)) [''layouts''])
      then (case rmtree (getcwd env) (disk w) src_path of
              Inl e \<Rightarrow> Inl e
            | Inr fs' \<Rightarrow> Inr (w\<lparr>disk := fs'\<rparr>))
      else Inr w)"

text \<open>
  \<^verbatim>\<open>on_modified\<close>: the left operand \<^verbatim>\<open>cache.get(path)\<close> of the comparison is evaluated
  before the right one, \<^verbatim>\<open>cache.read(path)\<close>, which stores what it read.
\<close>

definition Handler_on_modified :: "Env \<Rightarrow> World \<Rightarrow> string \<Rightarrow> error + World" where
  "Handler_on_modified env w src_path =
     (case relpath (getcwd env) src_path (root (site w)) of
        Inl e \<Rightarrow> Inl e
      | Inr path \<Rightarrow>
         (let old = ContentCache_get (cache (site w)) path
          in case ContentCache_read env (disk w) (cache (site w)) path of
               Inl e \<Rightarrow> Inl e
             | Inr (new, c') \<Rightarrow>
                (let w' = w\<lparr>site := (site w)\<lparr>cache := c'\<rparr>\<rparr>
                 in if old \<noteq> new
                    then (case ContentCache_get c' path of
                            None \<Rightarrow> Inl AttributeError
                          | Some data \<Rightarrow>
                             (case Page_parse_string env (root (site w')) path data of
                                Inl e \<Rightarrow> Inl e
                              | Inr page \<Rightarrow> call_render_to_disk env w' page))
                    else Inr w')))"

definition Handler_on_moved :: "Env \<Rightarrow> World \<Rightarrow> string \<Rightarrow> error + World" where
  "Handler_on_moved env w src_path = Inr w"

text \<open>
  Paths on which \<^verbatim>\<open>normpath\<close> has nothing to do: a clean component is a non-empty name
  without separator other than \<^verbatim>\<open>.\<close> and \<^verbatim>\<open>..\<close>, and a clean path is a sequence of
  clean components joined by single separators.
\<close>

definition clean_component :: "string \<Rightarrow> bool" where
  "clean_component c = (c \<noteq> [] \<and> sep \<notin> set c \<and> c \<noteq> ''.'' \<and> c \<noteq> ''..'')"

definition clean_path :: "string \<Rightarrow> bool" where
  "clean_path p = list_all clean_component (split_char sep p)"

section \<open>Reference definitions and a sample environment\<close>

text \<open>
  Splitting on whitespace, as the specification words the parsing of \<^verbatim>\<open>tags\<close>: the
  maximal runs of characters that are not whitespace (Python's \<^verbatim>\<open>s.split()\<close>).
\<close>

fun split_where :: "(char \<Rightarrow> bool) \<Rightarrow> string \<Rightarrow> string list" where
  "split_where P [] = [[]]"
| "split_where P (x # xs) =
     (if P x then [] # split_where P xs
      else (case split_where P xs of [] \<Rightarrow> [[x]] | w # ws \<Rightarrow> (x # w) # ws))"

definition split_whitespace :: "string \<Rightarrow> string list" where
  "split_whitespace s = filter (\<lambda>w. w \<noteq> []) (split_where is_space s)"

text \<open>
  A sample environment for concrete runs, with the working directory \<^verbatim>\<open>/site\<close> and
  the ASCII codec, which passes the bytes below 128 and raises on any other. Its
  parser reads a section header followed by lines \<^verbatim>\<open>key: value\<close>, skipping blank lines
  and raising on a line without a colon, as \<^verbatim>\<open>ConfigParser\<close> does on such input. Its
  Markdown wraps the text in a paragraph. Its template engine returns a template without
  tags as it is and evaluates the one expression \<^verbatim>\<open>{{ site.pages()|length }}\<close>, the
  number of pages of the site.
\<close>

fun parse_lines :: "string list \<Rightarrow> error + (string \<times> string) list" where
  "parse_lines [] = Inr []"
| "parse_lines (l # ls) =
     (if strip l = [] then parse_lines ls
      else (case split_once '':'' l of
              None \<Rightarrow> Inl ParsingError
            | Some (k, v) \<Rightarrow>
               (case parse_lines ls of
                  Inl e \<Rightarrow> Inl e
                | Inr kvs \<Rightarrow> Inr ((strip k, strip v) # kvs))))"

definition sample_items :: "string \<Rightarrow> error + (string \<times> string) list" where
  "sample_items text =
     (case split_char (CHR 0x0A) text of
        [] \<Rightarrow> Inl ParsingError
      | header # lines \<Rightarrow> if header = ''[Metadata]'' then parse_lines lines else Inl ParsingError)"

fun show_nat :: "nat \<Rightarrow> string" where
  "show_nat n =
     (if n < 10 then [char_of (48 + n)] else show_nat (n div 10) @ [char_of (48 + n mod 10)])"

definition sample_jinja :: "string \<Rightarrow> Page \<Rightarrow> Site \<Rightarrow> error + string" where
  "sample_jinja source page s =
     (if source = ''{{ site.pages()|length }}'' then Inr (show_nat (length (pagedata s)))
      else Inr source)"

definition ascii_codec :: "error \<Rightarrow> string \<Rightarrow> error + string" where
  "ascii_codec e s = (if list_all (\<lambda>c. (of_char c :: nat) < 128) s then Inr s else Inl e)"

definition sample_env :: Env where
  "sample_env =
     \<lparr>getcwd = ''/site'', decode = ascii_codec UnicodeDecodeError,
      encode = ascii_codec UnicodeEncodeError, parser_items = sample_items,
      markdown = (\<lambda>b plugins. ''<p>'' @ b @ ''</p>''), jinja_render = sample_jinja\<rparr>"

text \<open>A parsed Markdown page directly under \<^verbatim>\<open>content/\<close>, with a title and tags.\<close>

definition sample_page :: "string \<Rightarrow> string \<Rightarrow> string list \<Rightarrow> Page" where
  "sample_page name t ts =
     \<lparr>parsed = True, page_abspath = ''/site/content/'' @ name @ ''.md'',
      filepath = name @ ''.md'', folder = [], slug = name, ext = ''.md'',
      url = ''/'' @ name @ ''/'', date = None, tags = Some ts, template = None,
      title = Some t, body = Some [], content = None, rendered = None\<rparr>"

definition sample_site :: "Page list \<Rightarrow> Site" where
  "sample_site ps =
     \<lparr>root = ''/site'', cache = ContentCache_init ''/site'',
      markdown_plugins = [''markdown.extensions.fenced_code'', ''markdown.extensions.codehilite''],
      pagedata = ps\<rparr>"

text \<open>
  A site whose cache holds \<^verbatim>\<open>A\<close> for \<^verbatim>\<open>content/about.md\<close>, with a layout for
  Markdown pages, over a disk on which that file holds \<open>on_disk\<close>.
\<close>

definition sample_world :: "string \<Rightarrow> World" where
  "sample_world on_disk =
     \<lparr>site = \<lparr>root = ''/site'',
               cache = \<lparr>ContentCache.root = ''/site'',
                        files = [(''content/about.md'', ''A''), (''layouts/markdown.html'', ''layout'')],
                        templates = [(''markdown.html'', ''layout'')]\<rparr>,
               markdown_plugins = [''markdown.extensions.fenced_code'',
                                   ''markdown.extensions.codehilite''],
               pagedata = []\<rparr>,
      disk = [(''/site/content/about.md'', on_disk), (''/site/layouts/markdown.html'', ''layout'')],
      render_calls = []\<rparr>"

text \<open>The same, with \<open>cached\<close> as what the cache holds for \<^verbatim>\<open>content/about.md\<close>.\<close>

definition sample_world_cached :: "string \<Rightarrow> string \<Rightarrow> World" where
  "sample_world_cached cached on_disk =
     (sample_world on_disk)
       \<lparr>site := (site (sample_world on_disk))
          \<lparr>cache := (cache (site (sample_world on_disk)))
             \<lparr>files := [(''content/about.md'', cached), (''layouts/markdown.html'', ''layout'')]\<rparr>\<rparr>\<rparr>"

text \<open>Running one fallible step after another.\<close>

definition and_then :: "error + 'a \<Rightarrow> ('a \<Rightarrow> error + 'b) \<Rightarrow> error + 'b" where
  "and_then r f = (case r of Inl e \<Rightarrow> Inl e | Inr x \<Rightarrow> f x)"

section \<open>The cache and its template projection\<close>

lemma relpath_nonempty: "path \<noteq> [] \<Longrightarrow> \<exists>k. relpath cwd path start = Inr k"
  by (simp add: relpath_def Let_def)

lemma startswith_nonempty: "startswith s p \<Longrightarrow> p \<noteq> [] \<Longrightarrow> s \<noteq> []"
  by (auto simp: startswith_def)

lemma content_not_layouts: "startswith f ''content'' \<Longrightarrow> \<not> startswith f ''layouts''"
  by (cases f) (auto simp: startswith_def)

lemma backs_functional: "backs cwd p k \<Longrightarrow> backs cwd p k' \<Longrightarrow> k = k'"
  by (auto simp: backs_def dest: content_not_layouts)

lemma ContentCache_set_cases:
  "\<exists>c'. ContentCache_set cwd c f x = Inr c' \<and> files c' = dict_set (files c) f x \<and> ContentCache.root c' = ContentCache.root c \<and>
     ((\<exists>k. backs cwd f k \<and> templates c' = dict_set (templates c) k x)
      \<or> ((\<forall>k. \<not> backs cwd f k) \<and> templates c' = templates c))"
proof -
  consider (content) "startswith f ''content''" "snd (splitext f) \<noteq> ''.md''"
    | (layouts) "startswith f ''layouts''"
    | (neither) "\<not> (startswith f ''content'' \<and> snd (splitext f) \<noteq> ''.md'')" "\<not> startswith f ''layouts''"
    by blast
  then show ?thesis
  proof cases
    case content
    then have "f \<noteq> []" by (auto dest: startswith_nonempty)
    then obtain k where k: "relpath cwd f ''content'' = Inr k"
      using relpath_nonempty by blast
    with content show ?thesis
      by (simp add: ContentCache_set_def backs_def content_not_layouts)
  next
    case layouts
    then have "f \<noteq> []" by (auto dest: startswith_nonempty)
    then obtain k where k: "relpath cwd f ''layouts'' = Inr k"
      using relpath_nonempty by blast
    from layouts have "\<not> startswith f ''content''"
      using content_not_layouts by blast
    with layouts k show ?thesis
      by (simp add: ContentCache_set_def backs_def)
  next
    case neither
    then show ?thesis
      by (auto simp: ContentCache_set_def backs_def)
  qed
qed

lemma templates_projection_iff:
  "templates_projection cwd c \<longleftrightarrow>
     (\<forall>k \<in> fst ` set (templates c). \<exists>p \<in> fst ` set (files c).
        backs cwd p k \<and> map_of (files c) p = map_of (templates c) k)"
  by (auto simp: templates_projection_def list_all_iff list_ex_iff dict_get_def)

lemma set_preserves:
  assumes inv: "templates_projection cwd c" and s: "ContentCache_set cwd c f x = Inr c'"
  shows "templates_projection cwd c'"
proof -
  from ContentCache_set_cases [of cwd c f x] s
  have fl: "files c' = dict_set (files c) f x"
    and t: "(\<exists>k. backs cwd f k \<and> templates c' = dict_set (templates c) k x)
      \<or> ((\<forall>k. \<not> backs cwd f k) \<and> templates c' = templates c)"
    by auto
  show ?thesis
    unfolding templates_projection_iff
  proof
    fix k assume kin: "k \<in> fst ` set (templates c')"
    from t show "\<exists>p \<in> fst ` set (files c'). backs cwd p k \<and> map_of (files c') p = map_of (templates c') k"
    proof
      assume "\<exists>k0. backs cwd f k0 \<and> templates c' = dict_set (templates c) k0 x"
      then obtain k0 where b: "backs cwd f k0" and t': "templates c' = dict_set (templates c) k0 x"
        by blast
      show ?thesis
      proof (cases "k = k0")
        case True
        with b fl t' show ?thesis
          by (auto simp: dict_set_def update_conv' dom_update intro!: bexI [of _ f])
      next
        case False
        with kin t' have "k \<in> fst ` set (templates c)"
          by (auto simp: dict_set_def dom_update)
        with inv obtain p where p: "p \<in> fst ` set (files c)" "backs cwd p k"
            "map_of (files c) p = map_of (templates c) k"
          unfolding templates_projection_iff by blast
        from p(2) b False have "p \<noteq> f" using backs_functional by blast
        with p False fl t' show ?thesis
          by (auto simp: dict_set_def update_conv' dom_update intro!: bexI [of _ p])
      qed
    next
      assume n: "(\<forall>k. \<not> backs cwd f k) \<and> templates c' = templates c"
      with kin have "k \<in> fst ` set (templates c)" by simp
      with inv obtain p where p: "p \<in> fst ` set (files c)" "backs cwd p k"
          "map_of (files c) p = map_of (templates c) k"
        unfolding templates_projection_iff by blast
      with n have "p \<noteq> f" by blast
      with p n fl show ?thesis
        by (auto simp: dict_set_def update_conv' dom_update intro!: bexI [of _ p])
    qed
  qed
qed

lemma read_preserves:
  "templates_projection (getcwd sys) c \<Longrightarrow> ContentCache_read sys fs c f = Inr (r, c') \<Longrightarrow>
     templates_projection (getcwd sys) c'"
  by (auto simp: ContentCache_read_def split: option.splits sum.splits dest: set_preserves)

lemma set_total: "ContentCache_set cwd c f x \<noteq> Inl e"
  using ContentCache_set_cases [of cwd c f x] by auto

text \<open>\<^verbatim>\<open>read\<close> raises exactly when the read of the file raises.\<close>

lemma read_raises:
  "ContentCache_read sys fs c f = Inl e \<longleftrightarrow> ContentCache_peek sys fs c f = Inl e"
  by (auto simp: ContentCache_read_def set_total split: option.splits sum.splits)

lemma read_all_preserves:
  "templates_projection (getcwd sys) c \<Longrightarrow> read_all sys fs c xs = Inr c' \<Longrightarrow>
     templates_projection (getcwd sys) c'"
proof (induction xs arbitrary: c)
  case Nil
  then show ?case by simp
next
  case (Cons f xs)
  from Cons.prems(2) obtain r c1 where r: "ContentCache_read sys fs c f = Inr (r, c1)"
      and rest: "read_all sys fs c1 xs = Inr c'"
    by (auto split: sum.splits)
  from Cons.prems(1) r have "templates_projection (getcwd sys) c1"
    by (rule read_preserves)
  from Cons.IH [OF this rest] show ?case .
qed

lemma warm_preserves:
  assumes "templates_projection (getcwd sys) c" "ContentCache_warm sys fs c = Inr c'"
  shows "templates_projection (getcwd sys) c'"
proof -
  from assms(2) obtain c1 where c1: "warm_tree sys fs c ''content'' = Inr c1"
      and c2: "warm_tree sys fs c1 ''layouts'' = Inr c'"
    by (auto simp: ContentCache_warm_def split: sum.splits)
  from assms(1) c1 have "templates_projection (getcwd sys) c1"
    unfolding warm_tree_def by (rule read_all_preserves)
  from this c2 show ?thesis
    unfolding warm_tree_def by (rule read_all_preserves)
qed

lemma templates_projection_init: "templates_projection cwd (ContentCache_init r)"
  by (simp add: templates_projection_def ContentCache_init_def)

text \<open>
  Claim C1, as the specification states it: after every operation of the cache, \<^verbatim>\<open>delete\<close>
  and \<^verbatim>\<open>move\<close> included, each entry of \<open>templates\<close> is backed by a present entry of
  \<open>files\<close>. It fails for \<^verbatim>\<open>delete\<close>: starting from the empty cache,
  \<^verbatim>\<open>set("layouts/base.html", "X")\<close> gives a cache in which the projection holds, and
  \<^verbatim>\<open>delete("layouts/base.html")\<close> then empties \<open>files\<close> while the template
  \<^verbatim>\<open>base.html\<close> stays.
\<close>

theorem ContentCache_delete_breaks_projection:
  "ContentCache_set ''/site'' (ContentCache_init ''/site'') ''layouts/base.html'' ''X''
     = Inr \<lparr>ContentCache.root = ''/site'', files = [(''layouts/base.html'', ''X'')],
            templates = [(''base.html'', ''X'')]\<rparr>
   \<and> templates_projection ''/site''
       \<lparr>ContentCache.root = ''/site'', files = [(''layouts/base.html'', ''X'')],
        templates = [(''base.html'', ''X'')]\<rparr>
   \<and> ContentCache_delete
         \<lparr>ContentCache.root = ''/site'', files = [(''layouts/base.html'', ''X'')],
          templates = [(''base.html'', ''X'')]\<rparr> ''layouts/base.html''
     = Inr \<lparr>ContentCache.root = ''/site'', files = [], templates = [(''base.html'', ''X'')]\<rparr>
   \<and> \<not> templates_projection ''/site''
         \<lparr>ContentCache.root = ''/site'', files = [], templates = [(''base.html'', ''X'')]\<rparr>"
  by code_simp

text \<open>
  Claim C1, amended: after \<^verbatim>\<open>set\<close>, \<^verbatim>\<open>read\<close> and \<^verbatim>\<open>warm\<close> the mapping
  \<open>templates\<close> is a projection of a subset of \<open>files\<close>, when it was one before: every
  entry of \<open>templates\<close> is backed by a present entry of \<open>files\<close> under the content or
  layouts tree with the same content. \<^verbatim>\<open>move(old, new)\<close> does nothing when \<open>old\<close> is
  absent and is otherwise \<^verbatim>\<open>set(new, files[old])\<close> followed by \<^verbatim>\<open>delete(old)\<close>.
  \<^verbatim>\<open>delete\<close>, and with it \<^verbatim>\<open>move\<close>, removes the key from \<open>files\<close> only and leaves
  \<open>templates\<close> as it was, so that an entry of \<open>templates\<close> can outlive the entry of
  \<open>files\<close> that backed it.
\<close>

theorem ContentCache_projection:
  assumes "templates_projection (getcwd sys) c"
  shows "(\<forall>c'. ContentCache_set (getcwd sys) c f x = Inr c' \<longrightarrow> templates_projection (getcwd sys) c')
    \<and> (\<forall>v c'. ContentCache_read sys fs c f = Inr (v, c') \<longrightarrow> templates_projection (getcwd sys) c')
    \<and> (\<forall>c'. ContentCache_warm sys fs c = Inr c' \<longrightarrow> templates_projection (getcwd sys) c')
    \<and> ContentCache_delete c f =
         (if dict_contains (files c) f then Inr (c\<lparr>files := AList.delete f (files c)\<rparr>)
          else Inl KeyError)
    \<and> ContentCache_move (getcwd sys) c old new =
         (case dict_get (files c) old of
            None \<Rightarrow> Inr c
          | Some v \<Rightarrow>
             (case ContentCache_set (getcwd sys) c new v of
                Inl e \<Rightarrow> Inl e
              | Inr c' \<Rightarrow> ContentCache_delete c' old))"
proof -
  have s: "\<forall>c'. ContentCache_set (getcwd sys) c f x = Inr c' \<longrightarrow> templates_projection (getcwd sys) c'"
    using assms set_preserves by blast
  have rd: "\<forall>v c'. ContentCache_read sys fs c f = Inr (v, c') \<longrightarrow> templates_projection (getcwd sys) c'"
    using assms read_preserves by blast
  have wm: "\<forall>c'. ContentCache_warm sys fs c = Inr c' \<longrightarrow> templates_projection (getcwd sys) c'"
    using assms warm_preserves by blast
  have d: "ContentCache_delete c f =
         (if dict_contains (files c) f then Inr (c\<lparr>files := AList.delete f (files c)\<rparr>)
          else Inl KeyError)"
    by (simp add: ContentCache_delete_def dict_del_def)
  have m: "ContentCache_move (getcwd sys) c old new =
         (case dict_get (files c) old of
            None \<Rightarrow> Inr c
          | Some v \<Rightarrow>
             (case ContentCache_set (getcwd sys) c new v of
                Inl e \<Rightarrow> Inl e
              | Inr c' \<Rightarrow> ContentCache_delete c' old))"
  proof -
    have "dict_contains (files c) old \<longleftrightarrow> dict_get (files c) old \<noteq> None"
      by (simp add: dict_contains_def dict_get_def map_of_eq_None_iff)
    then show ?thesis
      by (auto simp: ContentCache_move_def ContentCache_get_def split: option.splits)
  qed
  from s rd wm d m show ?thesis by blast
qed

theorem ContentCache_projection_witness:
  "templates_projection (getcwd sample_env)
     \<lparr>ContentCache.root = ''/site'', files = [(''layouts/base.html'', ''X'')],
      templates = [(''base.html'', ''X'')]\<rparr>
   \<and> ContentCache_set (getcwd sample_env)
        \<lparr>ContentCache.root = ''/site'', files = [(''layouts/base.html'', ''X'')],
         templates = [(''base.html'', ''X'')]\<rparr> ''content/feed.xml'' ''Y''
       = Inr \<lparr>ContentCache.root = ''/site'',
              files = [(''layouts/base.html'', ''X''), (''content/feed.xml'', ''Y'')],
              templates = [(''base.html'', ''X''), (''feed.xml'', ''Y'')]\<rparr>
   \<and> ContentCache_warm sample_env [(''/site/content/feed.xml'', ''Y'')]
        \<lparr>ContentCache.root = ''/site'', files = [(''layouts/base.html'', ''X'')],
         templates = [(''base.html'', ''X'')]\<rparr>
       = Inr \<lparr>ContentCache.root = ''/site'',
              files = [(''layouts/base.html'', ''X''), (''content/feed.xml'', ''Y'')],
              templates = [(''base.html'', ''X''), (''feed.xml'', ''Y'')]\<rparr>
   \<and> templates_projection (getcwd sample_env)
        \<lparr>ContentCache.root = ''/site'',
         files = [(''layouts/base.html'', ''X''), (''content/feed.xml'', ''Y'')],
         templates = [(''base.html'', ''X''), (''feed.xml'', ''Y'')]\<rparr>"
proof -
  let ?c = "\<lparr>ContentCache.root = ''/site'', files = [(''layouts/base.html'', ''X'')],
      templates = [(''base.html'', ''X'')]\<rparr>"
  let ?c' = "\<lparr>ContentCache.root = ''/site'',
              files = [(''layouts/base.html'', ''X''), (''content/feed.xml'', ''Y'')],
              templates = [(''base.html'', ''X''), (''feed.xml'', ''Y'')]\<rparr>"
  have h: "templates_projection (getcwd sample_env) ?c"
    by code_simp
  have s: "ContentCache_set (getcwd sample_env) ?c ''content/feed.xml'' ''Y'' = Inr ?c'"
    by code_simp
  have w: "ContentCache_warm sample_env [(''/site/content/feed.xml'', ''Y'')] ?c = Inr ?c'"
    by code_simp
  from ContentCache_projection [OF h, of "''content/feed.xml''" "''Y''"] s
  have "templates_projection (getcwd sample_env) ?c'"
    by blast
  with h s w show ?thesis by blast
qed

text \<open>
  Claim C6: \<^verbatim>\<open>set\<close> is to keep Markdown content files out of \<open>templates\<close>. The test in
  \<^verbatim>\<open>set\<close> compares the extension with \<^verbatim>\<open>.md\<close> alone, while \<^verbatim>\<open>Page.render\<close> and
  \<^verbatim>\<open>Page.parse_string\<close> take \<^verbatim>\<open>.md\<close> and \<^verbatim>\<open>.markdown\<close> for Markdown. So
  \<^verbatim>\<open>set("content/about.markdown", "Y")\<close> on the empty cache registers the Markdown file
  as the template \<^verbatim>\<open>about.markdown\<close>.
\<close>

theorem ContentCache_set_markdown_long_extension:
  "ContentCache_set ''/site'' (ContentCache_init ''/site'') ''content/about.markdown'' ''Y''
     = Inr \<lparr>ContentCache.root = ''/site'', files = [(''content/about.markdown'', ''Y'')],
            templates = [(''about.markdown'', ''Y'')]\<rparr>"
  by code_simp

text \<open>
  The parts of C6 that hold: a path under \<^verbatim>\<open>content\<close> with the extension \<^verbatim>\<open>.md\<close>
  leaves \<open>templates\<close> unchanged, and a layout is registered under its name relative to
  \<^verbatim>\<open>layouts\<close>.
\<close>

lemma ContentCache_set_md_excluded:
  "startswith f ''content'' \<Longrightarrow> snd (splitext f) = ''.md'' \<Longrightarrow>
     ContentCache_set cwd c f x = Inr (c\<lparr>files := dict_set (files c) f x\<rparr>)"
  by (simp add: ContentCache_set_def content_not_layouts)

lemma ContentCache_set_examples:
  "ContentCache_set ''/site'' (ContentCache_init ''/site'') ''layouts/base.html'' ''X''
     = Inr \<lparr>ContentCache.root = ''/site'', files = [(''layouts/base.html'', ''X'')],
            templates = [(''base.html'', ''X'')]\<rparr>"
  "ContentCache_set ''/site'' (ContentCache_init ''/site'') ''content/about.md'' ''Y''
     = Inr \<lparr>ContentCache.root = ''/site'', files = [(''content/about.md'', ''Y'')],
            templates = []\<rparr>"
  by code_simp+

section \<open>Paths that are already normal\<close>

lemma split_char_nonempty [simp]: "split_char c s \<noteq> []"
  by (induction s) (auto split: list.splits)

lemma join_split_char [simp]: "join_char c (split_char c s) = s"
proof (induction s)
  case Nil
  then show ?case by simp
next
  case (Cons x xs)
  obtain w ws where w: "split_char c xs = w # ws"
    by (cases "split_char c xs") auto
  with Cons show ?case
    by (cases ws) auto
qed

lemma split_char_no_sep: "w \<in> set (split_char c s) \<Longrightarrow> c \<notin> set w"
  by (induction s arbitrary: w) (auto split: if_splits list.splits)

lemma split_char_snoc: "split_char c (s @ [c]) = split_char c s @ [[]]"
proof (induction s)
  case Nil
  then show ?case by simp
next
  case (Cons x xs)
  obtain w ws where "split_char c xs = w # ws"
    by (cases "split_char c xs") auto
  with Cons show ?case by simp
qed

lemma foldl_normpath_step_clean:
  "\<forall>w \<in> set comps. w \<noteq> [] \<and> w \<noteq> ''.'' \<and> w \<noteq> ''..'' \<Longrightarrow>
     foldl (normpath_step n) acc comps = acc @ comps"
  by (induction comps arbitrary: acc) (auto simp: normpath_step_def)

lemma clean_path_facts:
  assumes "clean_path p"
  shows "p \<noteq> []" "hd p \<noteq> sep" "last p \<noteq> sep"
proof -
  obtain w ws where w: "split_char sep p = w # ws"
    by (cases "split_char sep p") auto
  from assms w have cw: "clean_component w"
    by (simp add: clean_path_def)
  have p: "p = join_char sep (w # ws)"
    using w join_split_char [of sep p] by simp
  from cw p show "p \<noteq> []"
    by (cases ws) (auto simp: clean_component_def)
  from cw p show "hd p \<noteq> sep"
    by (cases ws; cases w) (auto simp: clean_component_def)
  show "last p \<noteq> sep"
  proof
    assume l: "last p = sep"
    with \<open>p \<noteq> []\<close> have "p = butlast p @ [sep]"
      by (metis append_butlast_last_id)
    then have "split_char sep p = split_char sep (butlast p) @ [[]]"
      using split_char_snoc [of sep "butlast p"] by simp
    then have "[] \<in> set (split_char sep p)" by simp
    with assms show False
      by (auto simp: clean_path_def list_all_iff clean_component_def)
  qed
qed

lemma normpath_clean:
  assumes "clean_path p"
  shows "normpath p = p" and "normpath (p @ ''/'') = p"
proof -
  let ?cs = "split_char sep p"
  have cs: "\<forall>w \<in> set ?cs. w \<noteq> [] \<and> w \<noteq> ''.'' \<and> w \<noteq> ''..''"
    using assms by (auto simp: clean_path_def list_all_iff clean_component_def)
  have ns: "\<not> startswith p ''/''" "\<not> startswith (p @ ''/'') ''/''"
    using clean_path_facts [OF assms] by (cases p; simp add: startswith_def)+
  have ne: "p \<noteq> []" by (rule clean_path_facts [OF assms])
  from cs have f: "foldl (normpath_step 0) [] ?cs = ?cs"
    using foldl_normpath_step_clean [of ?cs 0 "[]"] by simp
  with ns ne show "normpath p = p"
    by (simp add: normpath_def Let_def)
  have "split_char sep (p @ ''/'') = ?cs @ [[]]"
    using split_char_snoc [of sep p] by simp
  moreover have "foldl (normpath_step 0) [] (?cs @ [[]]) = ?cs"
    using f by (simp add: normpath_step_def)
  ultimately show "normpath (p @ ''/'') = p"
    using ns ne by (simp add: normpath_def Let_def)
qed





lemma join2_clean:
  assumes "clean_path f" "sep \<notin> set s"
  shows "join2 f s = f @ sep # s"
  using clean_path_facts [OF assms(1)] assms(2)
  by (cases s) (auto simp: join2_def startswith_def)


lemma takeWhile_upto: "c \<notin> set xs \<Longrightarrow> takeWhile (\<lambda>x. x \<noteq> c) (xs @ c # ys) = xs"
  by (induction xs) auto

lemma dropWhile_upto: "c \<notin> set xs \<Longrightarrow> dropWhile (\<lambda>x. x \<noteq> c) (xs @ c # ys) = c # ys"
  by (induction xs) auto

lemma takeWhile_absent: "c \<notin> set xs \<Longrightarrow> takeWhile (\<lambda>x. x \<noteq> c) xs = xs"
  by (induction xs) auto

lemma dropWhile_absent: "c \<notin> set xs \<Longrightarrow> dropWhile (\<lambda>x. x \<noteq> c) xs = []"
  by (induction xs) auto

lemma basename_append: "sep \<notin> set name \<Longrightarrow> basename (f @ sep # name) = name"
  using takeWhile_upto [of sep "rev name" "rev f"] by (simp add: basename_def)

lemma path_head_append: "sep \<notin> set name \<Longrightarrow> path_head (f @ sep # name) = f @ [sep]"
  using dropWhile_upto [of sep "rev name" "rev f"] by (simp add: path_head_def)

lemma basename_plain: "sep \<notin> set name \<Longrightarrow> basename name = name"
  by (simp add: basename_def takeWhile_absent)

lemma path_head_plain: "sep \<notin> set name \<Longrightarrow> path_head name = []"
  by (simp add: path_head_def dropWhile_absent)

lemma dirname_append:
  assumes "clean_path f" "sep \<notin> set name"
  shows "dirname (f @ sep # name) = f"
proof -
  note f = clean_path_facts [OF assms(1)]
  have h: "path_head (f @ sep # name) = f @ [sep]"
    using assms(2) by (rule path_head_append)
  have "f @ [sep] \<noteq> replicate (length (f @ [sep])) sep"
  proof
    assume "f @ [sep] = replicate (length (f @ [sep])) sep"
    then have "set (f @ [sep]) \<subseteq> {sep}"
      by (metis set_replicate_conv_if subset_insertI subset_refl)
    with f(1,2) show False by (cases f) auto
  qed
  moreover have "dropWhile (\<lambda>c. c = sep) (rev f) = rev f"
    using f(1,3) by (cases f rule: rev_cases) auto
  ultimately show ?thesis
    by (simp add: dirname_def h Let_def)
qed

lemma dirname_plain: "sep \<notin> set name \<Longrightarrow> dirname name = []"
  by (simp add: dirname_def path_head_plain)

lemma splitext_append:
  "sep \<notin> set name \<Longrightarrow> snd (splitext (f @ sep # name)) = snd (splitext name)"
  by (simp add: splitext_def basename_append basename_plain Let_def)

lemma splitext_index:
  "e \<in> set page_like \<Longrightarrow> splitext (''index'' @ e) = (''index'', e)"
  by (auto simp: page_like_def splitext_def basename_def path_head_def)

lemma page_like_no_sep: "e \<in> set page_like \<Longrightarrow> sep \<notin> set (''index'' @ e)"
  by (auto simp: page_like_def)

section \<open>Pages: target, slug and URL\<close>








lemma Page_init_fields:
  assumes "relpath (getcwd env) path (join r [''content'']) = Inr fp"
  shows "\<exists>p. Page_init env r path = Inr p \<and> parsed p = False \<and> filepath p = fp
           \<and> folder p = dirname fp
           \<and> slug p = Page_get_default_slug fp \<and> ext p = snd (splitext fp)
           \<and> url p = (if snd (splitext fp) \<in> set page_like
                       then ''/'' @ normpath (join (dirname fp) [Page_get_default_slug fp]) @ ''/''
                       else ''/'' @ join (dirname fp) [Page_get_default_slug fp @ snd (splitext fp)])"
  using assms
  by (simp add: Page_init_def Let_def Page_get_url_def Page_get_folder_def Page_get_extension_def)

text \<open>
  Claim C8: a page-like file named \<^verbatim>\<open>index\<close> is to get the empty slug and the URL of
  its folder. For \<^verbatim>\<open>content/index.md\<close>, the index of the content root, the slug is empty
  and \<^verbatim>\<open>get_target\<close> gives \<^verbatim>\<open>index.html\<close>, the file served at \<^verbatim>\<open>/\<close>; but the URL
  of the page is \<^verbatim>\<open>/./\<close>, since \<^verbatim>\<open>_get_url\<close> passes the empty join of folder and slug
  to \<^verbatim>\<open>normpath\<close>, which gives \<^verbatim>\<open>.\<close> for the empty path. The index of the folder
  \<^verbatim>\<open>blog\<close> has the URL \<^verbatim>\<open>/blog/\<close>.
\<close>

theorem Page_index_at_content_root:
  "map_sum id (\<lambda>p. (folder p, slug p, url p))
     (Page_init sample_env ''/site'' ''/site/content/index.md'')
     = Inr ([], [], ''/./'')
   \<and> map_sum id (\<lambda>p. (url p, Page_get_target p))
        (Page_parse_string sample_env ''/site'' ''/site/content/index.md'' ''Home'')
       = Inr (''/./'', Inr ''index.html'')
   \<and> map_sum id (\<lambda>p. (folder p, slug p, url p))
        (Page_init sample_env ''/site'' ''/site/content/blog/index.md'')
       = Inr (''blog'', [], ''/blog/'')"
  by code_simp

text \<open>
  The part of C8 that holds: for the path \<^verbatim>\<open>f/index.<ext>\<close> relative to \<^verbatim>\<open>content/\<close>,
  with \<open>f\<close> a clean folder path and a page-like extension, the page has folder \<open>f\<close>, the
  empty slug and the URL \<^verbatim>\<open>/f/\<close>, not \<^verbatim>\<open>/f/index/\<close>; directly under \<^verbatim>\<open>content/\<close>
  the slug is empty as well, and the URL is \<^verbatim>\<open>/./\<close>.
\<close>

lemma Page_index_in_folder:
  assumes "e \<in> set page_like"
  shows "(clean_path f \<and> relpath (getcwd env) path (join r [''content'']) = Inr (f @ ''/index'' @ e) \<longrightarrow>
           (\<exists>p. Page_init env r path = Inr p \<and> folder p = f \<and> slug p = [] \<and> url p = ''/'' @ f @ ''/''))
       \<and> (relpath (getcwd env) path (join r [''content'']) = Inr (''index'' @ e) \<longrightarrow>
           (\<exists>p. Page_init env r path = Inr p \<and> folder p = [] \<and> slug p = [] \<and> url p = ''/./''))"
proof (intro conjI impI)
  let ?name = "''index'' @ e"
  have ns: "sep \<notin> set ?name" using assms by (rule page_like_no_sep)
  have sx: "splitext ?name = (''index'', e)" using assms by (rule splitext_index)
  {
    assume a: "clean_path f \<and> relpath (getcwd env) path (join r [''content'']) = Inr (f @ ''/index'' @ e)"
    then have cf: "clean_path f" and rp: "relpath (getcwd env) path (join r [''content'']) = Inr (f @ sep # ?name)"
      by simp_all
    have d: "dirname (f @ sep # ?name) = f"
      using cf ns by (rule dirname_append)
    have s: "Page_get_default_slug (f @ sep # ?name) = []"
      using basename_append [OF ns, of f] sx by (simp add: Page_get_default_slug_def)
    have x: "snd (splitext (f @ sep # ?name)) = e"
      using splitext_append [OF ns, of f] sx by simp
    have j: "join f [[]] = f @ ''/''"
      using join2_clean [OF cf, of "[]"] by (simp add: join_def)
    from Page_init_fields [OF rp] d s x j assms normpath_clean(2) [OF cf]
    show "\<exists>p. Page_init env r path = Inr p \<and> folder p = f \<and> slug p = [] \<and> url p = ''/'' @ f @ ''/''"
      by auto
  }
  {
    assume rp: "relpath (getcwd env) path (join r [''content'']) = Inr (''index'' @ e)"
    have d: "dirname ?name = []"
      using ns by (rule dirname_plain)
    have s: "Page_get_default_slug ?name = []"
      using basename_plain [OF ns] sx by (simp add: Page_get_default_slug_def)
    have x: "snd (splitext ?name) = e"
      using sx by simp
    have j: "normpath (join [] [[]]) = ''.''"
      by (simp add: join_def join2_def normpath_def startswith_def)
    from Page_init_fields [OF rp] d s x j assms
    show "\<exists>p. Page_init env r path = Inr p \<and> folder p = [] \<and> slug p = [] \<and> url p = ''/./''"
      by auto
  }
qed

section \<open>Queries over the pages\<close>

lemma getattrs_length: "getattrs ps name = Inr keys \<Longrightarrow> length keys = length ps"
  by (induction ps arbitrary: keys) (auto split: sum.splits)

lemma mset_py_sort: "mset (py_sort f r xs) = mset xs"
  by (simp add: py_sort_def)

lemma mset_sorted_pairs:
  assumes "length ks = length ps"
  shows "image_mset snd (mset (py_sort f r (zip ks ps))) = mset ps"
proof -
  have "image_mset snd (mset (py_sort f r (zip ks ps))) = image_mset snd (mset (zip ks ps))"
    by (simp only: mset_py_sort)
  also have "\<dots> = mset (map snd (zip ks ps))"
    by simp
  finally show ?thesis
    using assms by simp
qed

lemma sort_pages_mset: "sort_pages name r ps = Inr ps' \<Longrightarrow> mset ps' = mset ps"
  by (auto simp: sort_pages_def mset_sorted_pairs dest!: getattrs_length
      split: sum.splits if_splits)

lemma sort_items_Stored:
  "sort_items name r s Stored = Inr (it, s') \<Longrightarrow>
     it = Stored \<and> sort_pages name r (pagedata s) = Inr (pagedata s') \<and> s' = s\<lparr>pagedata := pagedata s'\<rparr>"
  by (auto simp: sort_items_def deref_def split: sum.splits)

lemma sort_items_Fresh: "sort_items name r s (Fresh xs) = Inr (it, s') \<Longrightarrow> s' = s"
  by (auto simp: sort_items_def deref_def split: sum.splits)

lemma getattrs_zip:
  "getattrs ps name = Inr keys \<Longrightarrow> kp \<in> set (zip keys ps) \<Longrightarrow> Page_getattr (snd kp) name = Inr (fst kp)"
  by (induction ps arbitrary: keys) (auto split: sum.splits)

lemma str_key_pairs:
  assumes "getattrs ps name = Inr keys" "list_all is_str keys" "set zs = set (zip keys ps)"
  shows "map (str_key name) (map snd zs) = map (\<lambda>kp. the_str (fst kp)) zs"
proof -
  have "str_key name (snd kp) = the_str (fst kp)" if "kp \<in> set zs" for kp
  proof -
    from that assms(3) have in_zip: "kp \<in> set (zip keys ps)" by simp
    then have "Page_getattr (snd kp) name = Inr (fst kp)"
      using getattrs_zip [OF assms(1)] by blast
    moreover from in_zip have "fst kp \<in> set keys"
      by (metis in_set_zipE prod.collapse)
    with assms(2) have "is_str (fst kp)"
      by (simp add: list_all_iff)
    ultimately show ?thesis
      by (auto simp: str_key_def the_str_def is_str_def split: pyval.splits)
  qed
  then show ?thesis by simp
qed

lemma sort_pages_sorted_str:
  assumes "sort_pages name r ps = Inr ps'" "getattrs ps name = Inr keys" "list_all is_str keys"
    "2 \<le> length ps"
  shows "if r then sorted (rev (map (str_key name) ps')) else sorted (map (str_key name) ps')"
proof -
  let ?f = "\<lambda>kp::pyval \<times> Page. the_str (fst kp)"
  from assms have ps': "ps' = map snd (py_sort ?f r (zip keys ps))"
    by (simp add: sort_pages_def)
  have "set (py_sort ?f r (zip keys ps)) = set (zip keys ps)"
    by (simp add: py_sort_def)
  from str_key_pairs [OF assms(2,3) this]
  have m: "map (str_key name) ps' = map ?f (py_sort ?f r (zip keys ps))"
    by (simp add: ps')
  show ?thesis
  proof (cases r)
    case True
    then have "rev (map (str_key name) ps') = map ?f (sort_key ?f (rev (zip keys ps)))"
      by (simp add: m py_sort_def rev_map)
    with True show ?thesis by simp
  next
    case False
    then show ?thesis by (simp add: m py_sort_def)
  qed
qed

text \<open>
  Claim C10: \<^verbatim>\<open>pages\<close> called with an order and with neither path nor tag sorts the
  list stored in \<^verbatim>\<open>pagedata\<close> itself: the site afterwards holds the sorted list, a
  reordering of the old one. With a path or a tag the sort works on the list the filter
  made, and the site is left as it was.
\<close>

theorem Site_pages_order_in_place:
  "(Site_pages s None None limit (Some ord) = Inr (res, s') \<longrightarrow>
      sort_pages (if hd ord = CHR ''-'' then tl ord else ord) (hd ord = CHR ''-'') (pagedata s)
        = Inr (pagedata s')
      \<and> mset (pagedata s') = mset (pagedata s)
      \<and> s' = s\<lparr>pagedata := pagedata s'\<rparr>)
   \<and> ((path \<noteq> None \<or> tag \<noteq> None) \<and> Site_pages s path tag limit order = Inr (res, s') \<longrightarrow>
        s' = s)"
proof (intro conjI impI)
  assume a: "Site_pages s None None limit (Some ord) = Inr (res, s')"
  then obtain it where it: "ord \<noteq> []"
      "sort_items (if hd ord = CHR ''-'' then tl ord else ord) (hd ord = CHR ''-'') s Stored = Inr (it, s')"
    by (auto simp: Site_pages_def split: sum.splits if_splits)
  from sort_items_Stored [OF it(2)]
  show "sort_pages (if hd ord = CHR ''-'' then tl ord else ord) (hd ord = CHR ''-'') (pagedata s)
        = Inr (pagedata s')" and "s' = s\<lparr>pagedata := pagedata s'\<rparr>"
    by simp_all
  then show "mset (pagedata s') = mset (pagedata s)"
    using sort_pages_mset by blast
next
  assume b: "(path \<noteq> None \<or> tag \<noteq> None) \<and> Site_pages s path tag limit order = Inr (res, s')"
  then obtain xs where "order = None \<and> s' = s \<or>
      (\<exists>name r it. sort_items name r s (Fresh xs) = Inr (it, s'))"
    by (cases path; cases tag; cases order)
       (auto simp: Site_pages_def Let_def split: sum.splits if_splits)
  then show "s' = s"
    using sort_items_Fresh by blast
qed

theorem Site_pages_order_in_place_witness:
  "Site_pages (sample_site [sample_page ''b'' ''B'' [], sample_page ''a'' ''A'' []])
       None None None (Some ''title'')
     = Inr ([sample_page ''a'' ''A'' [], sample_page ''b'' ''B'' []],
            sample_site [sample_page ''a'' ''A'' [], sample_page ''b'' ''B'' []])
   \<and> mset (pagedata (sample_site [sample_page ''a'' ''A'' [], sample_page ''b'' ''B'' []]))
       = mset (pagedata (sample_site [sample_page ''b'' ''B'' [], sample_page ''a'' ''A'' []]))
   \<and> Site_pages (sample_site [sample_page ''b'' ''B'' [], sample_page ''a'' ''A'' []])
         (Some []) None None (Some ''title'')
       = Inr ([sample_page ''a'' ''A'' [], sample_page ''b'' ''B'' []],
              sample_site [sample_page ''b'' ''B'' [], sample_page ''a'' ''A'' []])"
proof -
  let ?s = "sample_site [sample_page ''b'' ''B'' [], sample_page ''a'' ''A'' []]"
  let ?s' = "sample_site [sample_page ''a'' ''A'' [], sample_page ''b'' ''B'' []]"
  let ?res = "[sample_page ''a'' ''A'' [], sample_page ''b'' ''B'' []]"
  have 1: "Site_pages ?s None None None (Some ''title'') = Inr (?res, ?s')"
    by code_simp
  have 2: "Site_pages ?s (Some []) None None (Some ''title'') = Inr (?res, ?s)"
    by code_simp
  from Site_pages_order_in_place [of ?s None "''title''" ?res ?s'] 1
  have "mset (pagedata ?s') = mset (pagedata ?s)"
    by blast
  with 1 2 show ?thesis by blast
qed

section \<open>Metadata\<close>

lemma length_split_char: "length (split_char c v) = Suc (count_list v c)"
proof (induction v)
  case Nil
  then show ?case by simp
next
  case (Cons x xs)
  obtain w ws where "split_char c xs = w # ws"
    by (cases "split_char c xs") auto
  with Cons show ?case by auto
qed

lemma tags_assign_metadata:
  "tags (assign_metadata values p) =
     Some (case dict_get values ''tags'' of None \<Rightarrow> [] | Some v \<Rightarrow> split_char CHR '' '' v)"
  by (simp add: assign_metadata_def Let_def split: option.splits)

text \<open>
  Claim C7, as the specification states it: the value of \<^verbatim>\<open>tags\<close> is split on
  whitespace. The code calls \<^verbatim>\<open>value.split(" ")\<close>, which cuts at every single space:
  for the value \<^verbatim>\<open>a  b\<close> with two spaces the page gets the three tags \<^verbatim>\<open>a\<close>, the
  empty string and \<^verbatim>\<open>b\<close>, where splitting on whitespace gives \<^verbatim>\<open>a\<close> and \<^verbatim>\<open>b\<close>.
\<close>

theorem tags_split_on_whitespace_fails:
  "tags (assign_metadata [(''tags'', ''a  b'')] (sample_page ''about'' ''T'' []))
     = Some [''a'', [], ''b'']
   \<and> map_sum id tags
        (Page_parse_string sample_env ''/site'' ''/site/content/about.md''
           (''tags: a  b'' @ [CHR 0x0A] @ ''++++'' @ [CHR 0x0A] @ ''body''))
       = Inr (Some [''a'', [], ''b''])
   \<and> split_whitespace ''a  b'' = [''a'', ''b'']"
  by code_simp

text \<open>
  Claim C7, amended: \<^verbatim>\<open>parse_metadata\<close> sets \<^verbatim>\<open>tags\<close> to the value of the table's
  \<^verbatim>\<open>tags\<close> entry cut at every single space character, in order, and to the empty
  sequence when the table has no such entry. The pieces contain no space, joined by single
  spaces they give the value back, and there is one more of them than the value has spaces;
  so consecutive spaces give empty tags and other whitespace does not separate.
\<close>

theorem tags_split_on_spaces:
  "tags (assign_metadata values p) =
     Some (case dict_get values ''tags'' of None \<Rightarrow> [] | Some v \<Rightarrow> split_char CHR '' '' v)
   \<and> (dict_get values ''tags'' = None \<longrightarrow> tags (assign_metadata values p) = Some [])
   \<and> (parser_items env (''[Metadata]'' @ [CHR 0x0A] @ s) = Inr items \<longrightarrow>
        (\<exists>p'. Page_parse_metadata env s p = Inr p'
           \<and> tags p' = Some (case dict_get (foldl (\<lambda>values (k, v). dict_set values k v) [] items)
                                     ''tags'' of
                               None \<Rightarrow> [] | Some v \<Rightarrow> split_char CHR '' '' v)))
   \<and> join_char CHR '' '' (split_char CHR '' '' v) = v
   \<and> (\<forall>w \<in> set (split_char CHR '' '' v). CHR '' '' \<notin> set w)
   \<and> length (split_char CHR '' '' v) = Suc (count_list v CHR '' '')"
  using split_char_no_sep [of _ "CHR '' ''" v]
  by (auto simp: tags_assign_metadata Page_parse_metadata_def length_split_char)

theorem tags_split_on_spaces_witness:
  "dict_get [(''title'', ''T'')] ''tags'' = None
   \<and> tags (assign_metadata [(''title'', ''T'')] (sample_page ''about'' ''T'' [''x''])) = Some []
   \<and> tags (assign_metadata [(''tags'', ''cake party'')] (sample_page ''about'' ''T'' []))
       = Some [''cake'', ''party'']
   \<and> parser_items sample_env (''[Metadata]'' @ [CHR 0x0A] @ ''tags: cake party'')
       = Inr [(''tags'', ''cake party'')]
   \<and> (\<exists>p'. Page_parse_metadata sample_env ''tags: cake party'' (sample_page ''about'' ''T'' [])
              = Inr p' \<and> tags p' = Some [''cake'', ''party''])"
proof -
  have n: "dict_get [(''title'', ''T'')] ''tags'' = None"
    by (simp add: dict_get_def)
  have i: "parser_items sample_env (''[Metadata]'' @ [CHR 0x0A] @ ''tags: cake party'')
       = Inr [(''tags'', ''cake party'')]"
    by code_simp
  have 1: "tags (assign_metadata [(''title'', ''T'')] (sample_page ''about'' ''T'' [''x''])) = Some []"
    using tags_split_on_spaces [of "[(''title'', ''T'')]" "sample_page ''about'' ''T'' [''x'']"] n
    by blast
  have 2: "tags (assign_metadata [(''tags'', ''cake party'')] (sample_page ''about'' ''T'' []))
       = Some [''cake'', ''party'']"
    using tags_split_on_spaces [of "[(''tags'', ''cake party'')]" "sample_page ''about'' ''T'' []"]
    by (simp add: dict_get_def)
  have 3: "\<exists>p'. Page_parse_metadata sample_env ''tags: cake party'' (sample_page ''about'' ''T'' [])
              = Inr p' \<and> tags p' = Some [''cake'', ''party'']"
    using tags_split_on_spaces [of _ "sample_page ''about'' ''T'' []" sample_env
        "''tags: cake party''" "[(''tags'', ''cake party'')]"] i
    by (simp add: dict_get_def dict_set_def)
  from n i 1 2 3 show ?thesis by blast
qed

section \<open>The change handler\<close>

lemma ContentCache_read_Some:
  assumes "ContentCache_peek sys fs c f = Inr (Some b)"
  shows "\<exists>c'. ContentCache_read sys fs c f = Inr (Some b, c') \<and> ContentCache_get c' f = Some b"
proof -
  obtain c' where c': "ContentCache_set (getcwd sys) c f b = Inr c'"
      "files c' = dict_set (files c) f b"
    using ContentCache_set_cases [of "getcwd sys" c f b] by blast
  have "ContentCache_get c' f = Some b"
    by (simp add: ContentCache_get_def c'(2) dict_contains_def dict_set_def dict_get_def
        update_conv' dom_update)
  with assms c'(1) show ?thesis
    by (simp add: ContentCache_read_def)
qed

lemma ContentCache_read_None:
  "ContentCache_peek sys fs c f = Inr None \<Longrightarrow> ContentCache_read sys fs c f = Inr (None, c)"
  by (simp add: ContentCache_read_def)

lemma call_render_to_disk_result:
  "call_render_to_disk env w page = Inr w' \<Longrightarrow>
     render_calls w' = render_calls w @ [page] \<and> site w' = site w"
  by (auto simp: call_render_to_disk_def split: sum.splits prod.splits)

text \<open>
  Claim C2, as the specification states it: whenever the content on disk has changed from
  the cached \<open>A\<close> to a different \<open>B\<close>, the handler calls \<^verbatim>\<open>render_to_disk\<close> exactly
  once on a page parsed from \<open>B\<close> and the cache ends at \<open>B\<close>. It fails in two ways. The
  handler compares the cache with the text that reading the file gives, in which every
  line ending is a line feed: with \<^verbatim>\<open>x LF y\<close> cached and \<^verbatim>\<open>x CR LF y\<close> on disk the
  two are equal, nothing is rendered and the cache keeps \<open>A\<close>. And the page is parsed
  before it is rendered: for a changed file whose metadata block the parser refuses, the
  handler raises and \<^verbatim>\<open>render_to_disk\<close> is not called.
\<close>

theorem Handler_on_modified_changed_not_rendered:
  "dict_get (disk (sample_world_cached (''x'' @ [CHR 0x0A] @ ''y'') (''x'' @ [CHR 0x0D, CHR 0x0A] @ ''y'')))
       ''/site/content/about.md''
     = Some (''x'' @ [CHR 0x0D, CHR 0x0A] @ ''y'')
   \<and> ContentCache_get
        (cache (site (sample_world_cached (''x'' @ [CHR 0x0A] @ ''y'')
                        (''x'' @ [CHR 0x0D, CHR 0x0A] @ ''y''))))
        ''content/about.md''
       = Some (''x'' @ [CHR 0x0A] @ ''y'')
   \<and> map_sum id (\<lambda>w'. (render_calls w', ContentCache_get (cache (site w')) ''content/about.md'',
                         dict_get (disk w') ''/site/output/about.md''))
        (Handler_on_modified sample_env
           (sample_world_cached (''x'' @ [CHR 0x0A] @ ''y'') (''x'' @ [CHR 0x0D, CHR 0x0A] @ ''y''))
           ''/site/content/about.md'')
       = Inr ([], Some (''x'' @ [CHR 0x0A] @ ''y''), None)
   \<and> ContentCache_get
        (cache (site (sample_world (''oops'' @ [CHR 0x0A] @ ''++++'' @ [CHR 0x0A] @ ''body''))))
        ''content/about.md''
       = Some ''A''
   \<and> Handler_on_modified sample_env
        (sample_world (''oops'' @ [CHR 0x0A] @ ''++++'' @ [CHR 0x0A] @ ''body''))
        ''/site/content/about.md''
       = Inl ParsingError"
  by code_simp

text \<open>
  Claim C2, amended: on a modify event for the path \<open>path\<close> (relative to the site root),
  let \<open>b\<close> be the text that reading the file gives, its bytes decoded and its line endings
  turned into line feeds. When \<open>b\<close> differs from what the cache holds, the handler stores
  \<open>b\<close> as the cache entry of \<open>path\<close> and parses a page from \<open>b\<close>: if the parse gives a
  page, the handler is one call of \<^verbatim>\<open>render_to_disk\<close> on that page, so that whenever it
  returns exactly that one call has been made and the cache entry is \<open>b\<close>; if the parse
  raises, the handler raises the same and \<^verbatim>\<open>render_to_disk\<close> is not called. When \<open>b\<close>
  equals what the cache holds, the handler returns with the disk and the calls of
  \<^verbatim>\<open>render_to_disk\<close> unchanged.
\<close>

theorem Handler_on_modified_rerenders_read_text:
  assumes "relpath (getcwd env) src_path (root (site w)) = Inr path"
  shows "(ContentCache_peek env (disk w) (cache (site w)) path = Inr (Some b)
          \<and> ContentCache_get (cache (site w)) path \<noteq> Some b \<longrightarrow>
          (\<exists>c'. ContentCache_read env (disk w) (cache (site w)) path = Inr (Some b, c')
             \<and> ContentCache_get c' path = Some b
             \<and> (\<forall>page. Page_parse_string env (root (site w)) path b = Inr page \<longrightarrow>
                   Handler_on_modified env w src_path
                     = call_render_to_disk env (w\<lparr>site := (site w)\<lparr>cache := c'\<rparr>\<rparr>) page)
             \<and> (\<forall>e. Page_parse_string env (root (site w)) path b = Inl e \<longrightarrow>
                   Handler_on_modified env w src_path = Inl e))
           \<and> (\<forall>w'. Handler_on_modified env w src_path = Inr w' \<longrightarrow>
                 (\<exists>page. Page_parse_string env (root (site w)) path b = Inr page
                    \<and> render_calls w' = render_calls w @ [page])
                 \<and> ContentCache_get (cache (site w')) path = Some b))
       \<and> (ContentCache_peek env (disk w) (cache (site w)) path
            = Inr (ContentCache_get (cache (site w)) path) \<longrightarrow>
          (\<exists>w'. Handler_on_modified env w src_path = Inr w'
             \<and> disk w' = disk w \<and> render_calls w' = render_calls w))"
proof (intro conjI impI)
  assume a: "ContentCache_peek env (disk w) (cache (site w)) path = Inr (Some b)
          \<and> ContentCache_get (cache (site w)) path \<noteq> Some b"
  then obtain c' where c': "ContentCache_read env (disk w) (cache (site w)) path = Inr (Some b, c')"
      "ContentCache_get c' path = Some b"
    using ContentCache_read_Some by blast
  let ?w = "w\<lparr>site := (site w)\<lparr>cache := c'\<rparr>\<rparr>"
  have h: "Handler_on_modified env w src_path =
             (case Page_parse_string env (root (site w)) path b of
                Inl e \<Rightarrow> Inl e
              | Inr page \<Rightarrow> call_render_to_disk env ?w page)"
    using assms a c' by (simp add: Handler_on_modified_def Let_def)
  show "\<exists>c'. ContentCache_read env (disk w) (cache (site w)) path = Inr (Some b, c')
             \<and> ContentCache_get c' path = Some b
             \<and> (\<forall>page. Page_parse_string env (root (site w)) path b = Inr page \<longrightarrow>
                   Handler_on_modified env w src_path
                     = call_render_to_disk env (w\<lparr>site := (site w)\<lparr>cache := c'\<rparr>\<rparr>) page)
             \<and> (\<forall>e. Page_parse_string env (root (site w)) path b = Inl e \<longrightarrow>
                   Handler_on_modified env w src_path = Inl e)"
    using c' h by (intro exI [of _ c']) simp
  show "\<forall>w'. Handler_on_modified env w src_path = Inr w' \<longrightarrow>
                 (\<exists>page. Page_parse_string env (root (site w)) path b = Inr page
                    \<and> render_calls w' = render_calls w @ [page])
                 \<and> ContentCache_get (cache (site w')) path = Some b"
  proof (intro allI impI)
    fix w' assume r: "Handler_on_modified env w src_path = Inr w'"
    with h obtain page where page: "Page_parse_string env (root (site w)) path b = Inr page"
        "call_render_to_disk env ?w page = Inr w'"
      by (auto split: sum.splits)
    from call_render_to_disk_result [OF page(2)] c'(2) page(1)
    show "(\<exists>page. Page_parse_string env (root (site w)) path b = Inr page
                    \<and> render_calls w' = render_calls w @ [page])
                 \<and> ContentCache_get (cache (site w')) path = Some b"
      by simp
  qed
next
  assume e: "ContentCache_peek env (disk w) (cache (site w)) path
            = Inr (ContentCache_get (cache (site w)) path)"
  show "\<exists>w'. Handler_on_modified env w src_path = Inr w'
             \<and> disk w' = disk w \<and> render_calls w' = render_calls w"
  proof (cases "ContentCache_get (cache (site w)) path")
    case None
    with e have "ContentCache_peek env (disk w) (cache (site w)) path = Inr None" by simp
    from ContentCache_read_None [OF this] None assms show ?thesis
      by (simp add: Handler_on_modified_def Let_def)
  next
    case (Some b)
    with e have "ContentCache_peek env (disk w) (cache (site w)) path = Inr (Some b)" by simp
    then obtain c' where "ContentCache_read env (disk w) (cache (site w)) path = Inr (Some b, c')"
      using ContentCache_read_Some by blast
    with assms Some show ?thesis
      by (simp add: Handler_on_modified_def Let_def)
  qed
qed

theorem Handler_on_modified_rerenders_read_text_witness:
  "relpath (getcwd sample_env) ''/site/content/about.md'' (root (site (sample_world ''B'')))
     = Inr ''content/about.md''
   \<and> ContentCache_get (cache (site (sample_world ''B''))) ''content/about.md'' = Some ''A''
   \<and> ContentCache_peek sample_env (disk (sample_world ''B'')) (cache (site (sample_world ''B'')))
        ''content/about.md'' = Inr (Some ''B'')
   \<and> (\<exists>w' page. Handler_on_modified sample_env (sample_world ''B'') ''/site/content/about.md'' = Inr w'
        \<and> Page_parse_string sample_env ''/site'' ''content/about.md'' ''B'' = Inr page
        \<and> render_calls w' = [page]
        \<and> ContentCache_get (cache (site w')) ''content/about.md'' = Some ''B''
        \<and> dict_get (disk w') ''/site/output/about.md'' = Some ''layout'')
   \<and> ContentCache_peek sample_env (disk (sample_world ''A'')) (cache (site (sample_world ''A'')))
        ''content/about.md''
       = Inr (ContentCache_get (cache (site (sample_world ''A''))) ''content/about.md'')
   \<and> (\<exists>w'. Handler_on_modified sample_env (sample_world ''A'') ''/site/content/about.md'' = Inr w'
        \<and> disk w' = disk (sample_world ''A'') \<and> render_calls w' = [])"
proof -
  let ?B = "sample_world ''B''" and ?A = "sample_world ''A''"
  have r: "relpath (getcwd sample_env) ''/site/content/about.md'' (root (site ?B)) = Inr ''content/about.md''"
    by code_simp
  have r': "relpath (getcwd sample_env) ''/site/content/about.md'' (root (site ?A)) = Inr ''content/about.md''"
    by code_simp
  have g: "ContentCache_get (cache (site ?B)) ''content/about.md'' = Some ''A''"
    by code_simp
  have p: "ContentCache_peek sample_env (disk ?B) (cache (site ?B)) ''content/about.md'' = Inr (Some ''B'')"
    by code_simp
  have q: "ContentCache_peek sample_env (disk ?A) (cache (site ?A)) ''content/about.md''
        = Inr (ContentCache_get (cache (site ?A)) ''content/about.md'')"
    by code_simp
  obtain w' where w': "Handler_on_modified sample_env ?B ''/site/content/about.md'' = Inr w'"
      "dict_get (disk w') ''/site/output/about.md'' = Some ''layout''"
  proof -
    have "map_sum id (\<lambda>w'. dict_get (disk w') ''/site/output/about.md'')
            (Handler_on_modified sample_env ?B ''/site/content/about.md'') = Inr (Some ''layout'')"
      by code_simp
    then show ?thesis using that
      by (cases "Handler_on_modified sample_env ?B ''/site/content/about.md''") auto
  qed
  have rs: "root (site ?B) = ''/site''" "render_calls ?B = []" "render_calls ?A = []"
    by (simp_all add: sample_world_def)
  from Handler_on_modified_rerenders_read_text [OF r, of "''B''"] g p w'(1)
  obtain page where "Page_parse_string sample_env ''/site'' ''content/about.md'' ''B'' = Inr page"
      "render_calls w' = [page]" "ContentCache_get (cache (site w')) ''content/about.md'' = Some ''B''"
    unfolding rs by auto
  moreover from Handler_on_modified_rerenders_read_text [OF r', of "''A''"] q
  have "\<exists>w'. Handler_on_modified sample_env ?A ''/site/content/about.md'' = Inr w'
        \<and> disk w' = disk ?A \<and> render_calls w' = []"
    unfolding rs by blast
  ultimately show ?thesis
    using r g p q w' unfolding rs by blast
qed

text \<open>
  Claim C3: a delete event under \<^verbatim>\<open>content/\<close> or \<^verbatim>\<open>layouts/\<close> is to remove the
  corresponding subtree of \<^verbatim>\<open>output/\<close>. The handler calls \<^verbatim>\<open>shutil.rmtree\<close> on the
  path of the event itself, the source path. After \<^verbatim>\<open>content/about.md\<close> has been deleted,
  with its output \<^verbatim>\<open>output/about.md\<close> on disk, the call raises, since the path is gone,
  and the output stays. Where the path of the event is a directory that still has files,
  the handler removes those source files and leaves the output subtree in place.
\<close>

theorem Handler_on_deleted_removes_source_not_output:
  "Handler_on_deleted sample_env
       ((sample_world ''A'')\<lparr>disk := [(''/site/layouts/markdown.html'', ''layout''),
                                    (''/site/output/about.md'', ''layout'')]\<rparr>)
       ''/site/content/about.md''
     = Inl FileNotFoundError
   \<and> map_sum id disk
        (Handler_on_deleted sample_env
           ((sample_world ''A'')\<lparr>disk := [(''/site/content/blog/a.md'', ''x''),
                                        (''/site/output/blog/a.md'', ''layout'')]\<rparr>)
           ''/site/content/blog'')
       = Inr [(''/site/output/blog/a.md'', ''layout'')]"
  by code_simp

text \<open>The part of C3 that holds: an event outside both trees changes nothing.\<close>

lemma Handler_on_deleted_elsewhere:
  "\<not> startswith src_path (join (root (site w)) [''content'']) \<Longrightarrow>
   \<not> startswith src_path (join (root (site w)) [''layouts'']) \<Longrightarrow>
   Handler_on_deleted env w src_path = Inr w"
  by (simp add: Handler_on_deleted_def)

section \<open>Discovery and build\<close>

text \<open>\<^verbatim>\<open>get_pages\<close> only ever appends to \<^verbatim>\<open>pagedata\<close>.\<close>

lemma get_pages_loop_appends:
  "get_pages_loop env fs s keys = Inr s' \<Longrightarrow>
     \<exists>new. pagedata s' = pagedata s @ new \<and> length new \<le> length keys
       \<and> root s' = root s \<and> cache s' = cache s"
proof (induction keys arbitrary: s)
  case Nil
  then show ?case by simp
next
  case (Cons f rest)
  show ?case
  proof (cases "startswith f ''content'' \<and> isfile (getcwd env) fs (join (root s) [f])")
    case False
    with Cons.prems have "get_pages_loop env fs s rest = Inr s'"
      by (auto simp: Let_def split: if_splits)
    from Cons.IH [OF this] show ?thesis by auto
  next
    case True
    with Cons.prems obtain page where
      "get_pages_loop env fs (s\<lparr>pagedata := pagedata s @ [page]\<rparr>) rest = Inr s'"
      by (auto simp: Let_def split: sum.splits)
    from Cons.IH [OF this] show ?thesis by auto
  qed
qed

lemma Site_get_pages_appends:
  "Site_get_pages env fs s = Inr s' \<Longrightarrow> \<exists>new. pagedata s' = pagedata s @ new"
  unfolding Site_get_pages_def by (blast dest: get_pages_loop_appends)

text \<open>
  Claim C9: after \<^verbatim>\<open>get_pages\<close> the list \<^verbatim>\<open>pagedata\<close> is to hold one page per content
  file, with nothing left from earlier calls. \<^verbatim>\<open>get_pages\<close> appends to
  \<^verbatim>\<open>self.pagedata\<close> and never empties it: on a site with the one content file
  \<^verbatim>\<open>content/index.html\<close> the first call leaves one page and the second call two, both
  for that file.
\<close>

theorem Site_get_pages_accumulates:
  "map_sum id (\<lambda>s. map filepath (pagedata s))
     (and_then (Site_init sample_env [(''/site/content/index.html'', ''hello'')] ''/site'')
        (Site_get_pages sample_env [(''/site/content/index.html'', ''hello'')]))
     = Inr [''index.html'']
   \<and> map_sum id (\<lambda>s. map filepath (pagedata s))
       (and_then
          (and_then (Site_init sample_env [(''/site/content/index.html'', ''hello'')] ''/site'')
             (Site_get_pages sample_env [(''/site/content/index.html'', ''hello'')]))
          (Site_get_pages sample_env [(''/site/content/index.html'', ''hello'')]))
       = Inr [''index.html'', ''index.html'']"
  by code_simp

text \<open>The part of C9 that holds: the handlers leave \<^verbatim>\<open>pagedata\<close> as it is.\<close>

lemma Handler_leaves_pagedata:
  "Handler_on_created env w src_path = Inr w' \<Longrightarrow> pagedata (site w') = pagedata (site w)"
  "Handler_on_deleted env w src_path = Inr w' \<Longrightarrow> pagedata (site w') = pagedata (site w)"
  "Handler_on_modified env w src_path = Inr w' \<Longrightarrow> pagedata (site w') = pagedata (site w)"
  "Handler_on_moved env w src_path = Inr w' \<Longrightarrow> pagedata (site w') = pagedata (site w)"
  by (auto simp: Handler_on_created_def Handler_on_deleted_def Handler_on_modified_def
      Handler_on_moved_def Let_def
      split: sum.splits option.splits if_splits prod.splits dest!: call_render_to_disk_result)

text \<open>
  Claim C4: a second \<^verbatim>\<open>build\<close> on unchanged input is to write the same output. A
  template sees the site, and with it the pages that the first build left in
  \<^verbatim>\<open>pagedata\<close>: for the one content file \<^verbatim>\<open>content/index.html\<close> holding
  \<^verbatim>\<open>{{ site.pages()|length }}\<close>, the first build writes \<^verbatim>\<open>1\<close> to
  \<^verbatim>\<open>output/index.html\<close> and the second build writes \<^verbatim>\<open>2\<close>.
\<close>

theorem Site_build_twice_differs:
  "map_sum id (\<lambda>(s, d). output_files sample_env s d)
     (and_then
        (Site_init sample_env [(''/site/content/index.html'', ''{{ site.pages()|length }}'')] ''/site'')
        (\<lambda>s. Site_build sample_env
                (s, [(''/site/content/index.html'', ''{{ site.pages()|length }}'')])))
     = Inr [(''/site/output/index.html'', ''1'')]
   \<and> map_sum id (\<lambda>(s, d). output_files sample_env s d)
       (and_then
          (and_then
             (Site_init sample_env [(''/site/content/index.html'', ''{{ site.pages()|length }}'')] ''/site'')
             (\<lambda>s. Site_build sample_env
                     (s, [(''/site/content/index.html'', ''{{ site.pages()|length }}'')])))
          (Site_build sample_env))
       = Inr [(''/site/output/index.html'', ''2'')]"
  by code_simp

end
